theory Spec2Isabelle
  imports Complex_Main
begin

section \<open>Tensors, errors and the framework primitives the code calls\<close>

text \<open>
  The two source files are \<^verbatim>\<open>llms/LLMs-from-scratch/gpt2.py\<close> and
  \<^verbatim>\<open>audio/GLM-4-Voice/cosyvoice/flow/flow.py\<close>. Both are written against the
  tensor framework, so the embedding fixes a representation for the tensors they handle:

  \<^item> a tensor of rank k is a k-fold nested list; in the flow model, where the code
    handles tensors with an empty dimension (an empty prompt), a tensor of activations
    also carries the sizes of its dimensions. A tensor of token ids has entries of type
    \<open>int\<close> (the framework's 64-bit ids never get near the bound in this code), a tensor of
    activations has entries of type \<open>real\<close>: infinities and NaN are not represented. The
    layers are computed in exact arithmetic. Where rounding decides a discrete result it
    is not idealised: the probabilities whose argmax is the next token come from the
    framework's softmax kernel, which is a parameter of the generation loop, and the
    numbers of frames (lines 87 and 124 of flow.py) are computed in 32-bit floats;
  \<^item> an exception is a value \<open>Inl e\<close> of the result type. The constructors name the
    exception raised by the code under study or by a framework primitive it calls
    directly; an exception raised inside a module that the code receives as a parameter
    (the language model passed to \<open>generate_text_simple\<close>, the attention layer, the
    encoder, length regulator and decoder of the flow model) is \<open>ModuleError e\<close>;
  \<^item> the random number generator of the framework is a state \<open>'g\<close> threaded through every
    module that may draw from it (dropout in training mode).
\<close>

datatype 'e error = AssertionError | IndexError | RuntimeError | ModuleError 'e

type_synonym vec = "real list"
type_synonym mat = "real list list"
type_synonym ten3 = "real list list list"
type_synonym ids = "int list list"

text \<open>Python's \<^verbatim>\<open>xs[start:]\<close>: a negative start counts from the end, and both are
  clipped to the list.\<close>

definition py_slice_from :: "int \<Rightarrow> 'a list \<Rightarrow> 'a list" where
  "py_slice_from start xs =
     (let n = int (length xs);
          s = (if start < 0 then max (start + n) 0 else min start n)
      in drop (nat s) xs)"

subsection \<open>32-bit floats\<close>

text \<open>
  A finite 32-bit float is a real number with a significand of 24 bits and an exponent of
  at least -126 (smaller numbers are subnormal). \<open>fl32 x\<close> is the float nearest to \<open>x\<close>, a tie
  going to the even significand, as every arithmetic operation of IEEE 754 rounds its
  exact result. A result beyond the largest float would be an infinity and is outside
  the model.
\<close>

definition round_even :: "real \<Rightarrow> int" where
  "round_even y =
     (let f = \<lfloor>y\<rfloor>; d = y - of_int f
      in if d < 1 / 2 then f else if 1 / 2 < d then f + 1 else if even f then f else f + 1)"

definition ulp_exponent :: "real \<Rightarrow> int" where
  "ulp_exponent x = max \<lfloor>log 2 \<bar>x\<bar>\<rfloor> (- 126) - 23"

definition fl32 :: "real \<Rightarrow> real" where
  "fl32 x =
     (if x = 0 then 0
      else of_int (round_even (x / 2 powr of_int (ulp_exponent x))) *
           2 powr of_int (ulp_exponent x))"

text \<open>The conversion of a float to an integer (\<^verbatim>\<open>.int()\<close>, \<^verbatim>\<open>int(...)\<close>) drops the
  fraction.\<close>

definition to_int :: "real \<Rightarrow> int" where
  "to_int x = (if 0 \<le> x then \<lfloor>x\<rfloor> else \<lceil>x\<rceil>)"

subsection \<open>Softmax and argmax\<close>

text \<open>
  \<^verbatim>\<open>torch.softmax(v, dim=-1)\<close> on one vector of the last dimension returns a vector of the
  same length. Its entries are computed by a kernel of the framework in floating point;
  the source does not fix the kernel (the order of the sum, a division or a product by
  the reciprocal, the precision of the exponential), so the kernel is a parameter:
  \<open>sm v i\<close> is entry \<open>i\<close> of the result on \<open>v\<close>.
\<close>

type_synonym softmax_kernel = "vec \<Rightarrow> nat \<Rightarrow> real"

definition softmax_with :: "softmax_kernel \<Rightarrow> vec \<Rightarrow> vec" where
  "softmax_with sm v = map (sm v) [0..<length v]"

text \<open>
  The kernel in 32-bit floats with every operation rounded to nearest: the largest entry
  is subtracted, the exponentials are summed from left to right, and each exponential
  is divided by the sum.
\<close>

definition softmax_float32 :: "vec \<Rightarrow> vec" where
  "softmax_float32 v =
     (if v = [] then []
      else let m = Max (set v);
               e = map (\<lambda>x. fl32 (exp (fl32 (x - m)))) v;
               s = foldl (\<lambda>a b. fl32 (a + b)) 0 e
           in map (\<lambda>y. fl32 (y / s)) e)"

definition kernel_float32 :: softmax_kernel where
  "kernel_float32 v i = softmax_float32 v ! i"

text \<open>\<^verbatim>\<open>torch.argmax(v, dim=-1)\<close> on one non-empty vector: a scan that keeps the
  first index holding the largest entry.\<close>

fun argmax_scan :: "nat \<Rightarrow> real \<Rightarrow> nat \<Rightarrow> vec \<Rightarrow> nat" where
  "argmax_scan bi bv i [] = bi"
| "argmax_scan bi bv i (x # xs) =
     (if bv < x then argmax_scan i x (Suc i) xs else argmax_scan bi bv (Suc i) xs)"

fun argmax :: "vec \<Rightarrow> nat" where
  "argmax [] = 0"
| "argmax (x # xs) = argmax_scan 0 x 1 xs"

section \<open>gpt2.py: greedy generation\<close>

text \<open>
  A language model, as \<open>generate_text_simple\<close> receives it: called on a batch of token
  rows it returns the logits, of shape [batch, sequence, vocabulary], or raises.
\<close>

type_synonym ('e, 'g) lm = "ids \<Rightarrow> 'g \<Rightarrow> 'e + (ten3 \<times> 'g)"

text \<open>\<^verbatim>\<open>idx[:, -context_size:]\<close>\<close>

definition idx_cond :: "int \<Rightarrow> ids \<Rightarrow> ids" where
  "idx_cond context_size idx = map (py_slice_from (- context_size)) idx"

text \<open>
  Lines 144 to 147, after the model has returned \<open>logits\<close>:
  \<^item> \<^verbatim>\<open>logits[:, -1, :]\<close> raises IndexError when the sequence dimension is empty;
  \<^item> \<^verbatim>\<open>torch.argmax(probas, dim=-1, keepdim=True)\<close> raises IndexError when the
    vocabulary dimension is empty, and otherwise gives one id per row;
  \<^item> \<^verbatim>\<open>torch.cat((idx, idx_next), dim=1)\<close> raises RuntimeError unless both have the
    same number of rows.
\<close>

definition idx_next :: "softmax_kernel \<Rightarrow> ten3 \<Rightarrow> ids" where
  "idx_next sm logits =
     map (\<lambda>row. [int (argmax (softmax_with sm (last row)))]) logits"

definition append_next :: "softmax_kernel \<Rightarrow> ids \<Rightarrow> ten3 \<Rightarrow> 'e error + ids" where
  "append_next sm idx logits =
     (if \<exists>row \<in> set logits. row = [] then Inl IndexError
      else if \<exists>row \<in> set logits. last row = [] then Inl IndexError
      else if length logits \<noteq> length idx then Inl RuntimeError
      else Inr (map2 (@) idx (idx_next sm logits)))"

text \<open>One pass through the body of the loop (lines 140 to 147).\<close>

definition generate_step ::
  "softmax_kernel \<Rightarrow> ('e, 'g) lm \<Rightarrow> int \<Rightarrow> ids \<Rightarrow> 'g \<Rightarrow> 'e error + (ids \<times> 'g)" where
  "generate_step sm model context_size idx g =
     (case model (idx_cond context_size idx) g of
        Inl e \<Rightarrow> Inl (ModuleError e)
      | Inr (logits, g') \<Rightarrow>
          (case append_next sm idx logits of
             Inl e \<Rightarrow> Inl e
           | Inr idx' \<Rightarrow> Inr (idx', g')))"

text \<open>\<^verbatim>\<open>for _ in range(max_new_tokens)\<close>: the number of passes still to run.\<close>

fun generate_loop ::
  "softmax_kernel \<Rightarrow> ('e, 'g) lm \<Rightarrow> int \<Rightarrow> nat \<Rightarrow> ids \<Rightarrow> 'g \<Rightarrow>
   'e error + (ids \<times> 'g)" where
  "generate_loop sm model context_size 0 idx g = Inr (idx, g)"
| "generate_loop sm model context_size (Suc n) idx g =
     (case generate_step sm model context_size idx g of
        Inl e \<Rightarrow> Inl e
      | Inr (idx', g') \<Rightarrow> generate_loop sm model context_size n idx' g')"

text \<open>The function itself; its first argument here is the softmax kernel of the
  framework, its last the state of the random number generator.\<close>

definition generate_text_simple ::
  "softmax_kernel \<Rightarrow> ('e, 'g) lm \<Rightarrow> ids \<Rightarrow> int \<Rightarrow> int \<Rightarrow> 'g \<Rightarrow>
   'e error + (ids \<times> 'g)" where
  "generate_text_simple sm model idx max_new_tokens context_size g =
     generate_loop sm model context_size (nat max_new_tokens) idx g"

subsection \<open>Notions used to state the properties of the loop\<close>

text \<open>The last \<open>c\<close> tokens of a row (the whole row when it is shorter).\<close>

definition last_tokens :: "int \<Rightarrow> 'a list \<Rightarrow> 'a list" where
  "last_tokens c row = drop (length row - nat c) row"

text \<open>
  An observer around a language model: it answers as the model does and appends every
  batch of contexts the model is called on to a log kept beside the model's own state.
  The log counts the passes of the loop and shows what each pass conditions on.
\<close>

definition recording :: "('e, 'g) lm \<Rightarrow> ('e, 'g \<times> ids list) lm" where
  "recording model x s =
     (case model x (fst s) of
        Inl e \<Rightarrow> Inl e
      | Inr (l, g') \<Rightarrow> Inr (l, (g', snd s @ [x])))"

text \<open>
  A language model that answers on every batch the loop can hand it: \<open>B\<close> rows of one
  common length between 1 and \<open>cs\<close>, ids inside a vocabulary of \<open>V\<close> entries. The answer
  has \<open>B\<close> rows, a non-empty sequence dimension, and a non-empty vocabulary dimension of
  at most \<open>V\<close> entries.
\<close>

definition lm_responds :: "('e, 'g) lm \<Rightarrow> nat \<Rightarrow> int \<Rightarrow> nat \<Rightarrow> bool" where
  "lm_responds model B cs V =
     (\<forall>x g. length x = B \<and>
        (\<exists>L. 1 \<le> L \<and> int L \<le> cs \<and>
           (\<forall>r\<in>set x. length r = L \<and> (\<forall>t\<in>set r. 0 \<le> t \<and> t < int V))) \<longrightarrow>
        (\<exists>l g'. model x g = Inr (l, g') \<and> length l = B \<and>
           (\<forall>r\<in>set l. r \<noteq> [] \<and> last r \<noteq> [] \<and> length (last r) \<le> V)))"

text \<open>
  A small concrete language model over a vocabulary of three ids, on which the theorems
  are exercised: at every position it scores the successor (modulo 3) of the token at
  that position with the logit 0 and the two other ids with the logit -1000. Its state
  counts the calls.
\<close>

definition toy_lm :: "(unit, nat) lm" where
  "toy_lm x g =
     Inr (map (map (\<lambda>t. [if t mod 3 = 2 then 0 else - 1000,
                            if t mod 3 = 0 then 0 else - 1000,
                            if t mod 3 = 1 then 0 else - 1000])) x, Suc g)"

text \<open>A model whose logits differ by less than the spacing of the floats: at every
  row it returns one position with the logits 0 and \<open>2 ^ -40\<close>.\<close>

definition tie_lm :: "(unit, nat) lm" where
  "tie_lm x g = Inr (map (\<lambda>row. [[0, 1 / 2 ^ 40]]) x, Suc g)"

section \<open>gpt2.py: the layers of the model\<close>

subsection \<open>Framework primitives: sequencing, broadcasting, embedding, linear layer\<close>

text \<open>The first exception ends a computation.\<close>

definition then_do :: "'x + 'a \<Rightarrow> ('a \<Rightarrow> 'x + 'b) \<Rightarrow> 'x + 'b" where
  "then_do m f = (case m of Inl e \<Rightarrow> Inl e | Inr a \<Rightarrow> f a)"

fun collect :: "('x + 'a) list \<Rightarrow> 'x + 'a list" where
  "collect [] = Inr []"
| "collect (r # rs) =
     (case r of
        Inl e \<Rightarrow> Inl e
      | Inr a \<Rightarrow> (case collect rs of Inl e \<Rightarrow> Inl e | Inr as \<Rightarrow> Inr (a # as)))"

text \<open>
  An elementwise operation on two tensors of the same rank, one dimension at a time: the
  sizes agree, or one of them is 1 and its only entry is repeated; anything else raises
  RuntimeError. An empty list stands for an empty dimension whatever the dimensions
  inside it, so on a tensor with an empty dimension the inner sizes are not compared.
\<close>

definition broadcast ::
  "('a \<Rightarrow> 'b \<Rightarrow> 'e error + 'c) \<Rightarrow> 'a list \<Rightarrow> 'b list \<Rightarrow> 'e error + 'c list" where
  "broadcast f xs ys =
     (if length xs = length ys then collect (map2 f xs ys)
      else if length xs = 1 then collect (map (f (hd xs)) ys)
      else if length ys = 1 then collect (map (\<lambda>x. f x (hd ys)) xs)
      else Inl RuntimeError)"

definition add0 :: "real \<Rightarrow> real \<Rightarrow> 'e error + real" where
  "add0 a b = Inr (a + b)"

definition mul0 :: "real \<Rightarrow> real \<Rightarrow> 'e error + real" where
  "mul0 a b = Inr (a * b)"

definition add1 :: "vec \<Rightarrow> vec \<Rightarrow> 'e error + vec" where
  "add1 = broadcast add0"

definition mul1 :: "vec \<Rightarrow> vec \<Rightarrow> 'e error + vec" where
  "mul1 = broadcast mul0"

definition add2 :: "mat \<Rightarrow> mat \<Rightarrow> 'e error + mat" where
  "add2 = broadcast add1"

definition add3 :: "ten3 \<Rightarrow> ten3 \<Rightarrow> 'e error + ten3" where
  "add3 = broadcast add2"

text \<open>A layer that acts on the last dimension, applied to a tensor of rank 3.\<close>

definition on_rows :: "(vec \<Rightarrow> 'x + vec) \<Rightarrow> ten3 \<Rightarrow> 'x + ten3" where
  "on_rows f x = collect (map (\<lambda>m. collect (map f m)) x)"

text \<open>\<^verbatim>\<open>nn.Embedding\<close>: the row of the table at the id; an id outside the table raises
  IndexError (a negative id is not counted from the end).\<close>

definition Embedding :: "mat \<Rightarrow> int \<Rightarrow> 'e error + vec" where
  "Embedding table i =
     (if 0 \<le> i \<and> i < int (length table) then Inr (table ! nat i) else Inl IndexError)"

text \<open>\<^verbatim>\<open>nn.Linear(in_features, out_features, bias)\<close>: the weight has one row per output
  feature; the input's last dimension must be \<open>in_features\<close>.\<close>

record Linear =
  in_features :: nat
  out_features :: nat
  weight :: mat
  bias :: "vec option"

definition dot :: "vec \<Rightarrow> vec \<Rightarrow> real" where
  "dot a b = (\<Sum>(p, q)\<leftarrow>zip a b. p * q)"

definition Linear_forward :: "Linear \<Rightarrow> vec \<Rightarrow> 'e error + vec" where
  "Linear_forward lin x =
     (if length x \<noteq> in_features lin then Inl RuntimeError
      else Inr (case bias lin of
                  None \<Rightarrow> map (\<lambda>w. dot w x) (weight lin)
                | Some b \<Rightarrow> map2 (\<lambda>w c. dot w x + c) (weight lin) b))"

subsection \<open>LayerNrom (lines 48 to 59)\<close>

record LayerNrom =
  eps :: real
  scale :: vec
  shift :: vec

text \<open>\<^verbatim>\<open>x.mean(dim=-1, keepdim=True)\<close> and
  \<^verbatim>\<open>x.var(dim=-1, keepdim=True, unbiased=False)\<close> of one vector of the last dimension.\<close>

definition tensor_mean :: "vec \<Rightarrow> real" where
  "tensor_mean x = sum_list x / real (length x)"

definition tensor_var :: "vec \<Rightarrow> real" where
  "tensor_var x = (\<Sum>y\<leftarrow>x. (y - tensor_mean x)\<^sup>2) / real (length x)"

text \<open>
  Lines 56 to 59 on one vector \<open>x\<close> of the last dimension. The mean and the variance have a
  last dimension of size 1, so subtracting and dividing by them never fails; multiplying
  by \<open>scale\<close> and adding \<open>shift\<close> broadcast against the parameters.
\<close>

definition LayerNrom_row :: "LayerNrom \<Rightarrow> vec \<Rightarrow> 'e error + vec" where
  "LayerNrom_row layer x =
     (let mean = tensor_mean x;
          var = tensor_var x;
          norm_x = map (\<lambda>y. (y - mean) / sqrt (var + eps layer)) x
      in then_do (mul1 (scale layer) norm_x)
           (\<lambda>scaled. add1 (map (\<lambda>y. y - mean) scaled) (shift layer)))"

definition LayerNrom_forward :: "LayerNrom \<Rightarrow> ten3 \<Rightarrow> 'e error + ten3" where
  "LayerNrom_forward layer = on_rows (LayerNrom_row layer)"

subsection \<open>GELU and FeedForward (lines 62 to 81)\<close>

definition GELU_forward :: "real \<Rightarrow> real" where
  "GELU_forward x =
     0.5 * x * (1 + tanh (sqrt (2.0 / pi) * (x + 0.044715 * x ^ 3)))"

text \<open>\<^verbatim>\<open>nn.Sequential(nn.Linear(emb_dim, 4 * emb_dim), GELU(), nn.Linear(4 * emb_dim, emb_dim))\<close>:
  the fields are the first and the third entry of \<open>layers\<close>.\<close>

record FeedForward =
  layers_0 :: Linear
  layers_2 :: Linear

definition FeedForward_row :: "FeedForward \<Rightarrow> vec \<Rightarrow> 'e error + vec" where
  "FeedForward_row ff x =
     then_do (Linear_forward (layers_0 ff) x)
       (\<lambda>h. Linear_forward (layers_2 ff) (map GELU_forward h))"

definition FeedForward_forward :: "FeedForward \<Rightarrow> ten3 \<Rightarrow> 'e error + ten3" where
  "FeedForward_forward ff = on_rows (FeedForward_row ff)"

subsection \<open>TransformerBlock (lines 84 to 110)\<close>

text \<open>
  \<open>MultiHeadAttention\<close> comes from a module of the repository that is not among the
  sources, and \<^verbatim>\<open>nn.Dropout\<close> is a layer of the framework whose mask is drawn from the
  random number generator: both are fields of the block, the attention as a function
  that may raise, the dropout as a function that returns the generator's new state.
\<close>

record ('e, 'g) TransformerBlock =
  att :: "ten3 \<Rightarrow> 'g \<Rightarrow> 'e + (ten3 \<times> 'g)"
  ff :: FeedForward
  norm1 :: LayerNrom
  norm2 :: LayerNrom
  drop_shortcut :: "ten3 \<Rightarrow> 'g \<Rightarrow> ten3 \<times> 'g"

definition call_module :: "'e + 'a \<Rightarrow> 'e error + 'a" where
  "call_module r = (case r of Inl e \<Rightarrow> Inl (ModuleError e) | Inr a \<Rightarrow> Inr a)"

definition TransformerBlock_forward ::
  "('e, 'g) TransformerBlock \<Rightarrow> ten3 \<Rightarrow> 'g \<Rightarrow> 'e error + (ten3 \<times> 'g)" where
  "TransformerBlock_forward blk x g =
     (let shortcut = x in
      then_do (LayerNrom_forward (norm1 blk) x) (\<lambda>x1.
      then_do (call_module (att blk x1 g)) (\<lambda>(x2, g1).
      case drop_shortcut blk x2 g1 of (x3, g2) \<Rightarrow>
      then_do (add3 x3 shortcut) (\<lambda>x4.
      let shortcut = x4 in
      then_do (LayerNrom_forward (norm2 blk) x4) (\<lambda>x5.
      then_do (FeedForward_forward (ff blk) x5) (\<lambda>x6.
      case drop_shortcut blk x6 g2 of (x7, g3) \<Rightarrow>
      then_do (add3 x7 shortcut) (\<lambda>x8.
      Inr (x8, g3))))))))"

subsection \<open>GPTModel (lines 113 to 135)\<close>

record ('e, 'g) GPTModel =
  tok_emb :: mat
  pos_emb :: mat
  drop_emb :: "ten3 \<Rightarrow> 'g \<Rightarrow> ten3 \<times> 'g"
  trf_blocks :: "('e, 'g) TransformerBlock list"
  final_norm :: LayerNrom
  out_head :: Linear

text \<open>\<^verbatim>\<open>nn.Sequential\<close> over the blocks.\<close>

fun Sequential ::
  "('e, 'g) TransformerBlock list \<Rightarrow> ten3 \<Rightarrow> 'g \<Rightarrow> 'e error + (ten3 \<times> 'g)" where
  "Sequential [] x g = Inr (x, g)"
| "Sequential (blk # blks) x g =
     then_do (TransformerBlock_forward blk x g) (\<lambda>(x', g'). Sequential blks x' g')"

text \<open>\<^verbatim>\<open>batch_size, seq_len = in_idx.shape\<close>: the length of the rows.\<close>

definition seq_len :: "ids \<Rightarrow> nat" where
  "seq_len in_idx = (case in_idx of [] \<Rightarrow> 0 | row # _ \<Rightarrow> length row)"

definition GPTModel_forward ::
  "('e, 'g) GPTModel \<Rightarrow> ids \<Rightarrow> 'g \<Rightarrow> 'e error + (ten3 \<times> 'g)" where
  "GPTModel_forward m in_idx g =
     then_do (collect (map (\<lambda>row. collect (map (Embedding (tok_emb m)) row)) in_idx))
       (\<lambda>tok_embeds.
     then_do (collect (map (Embedding (pos_emb m)) (map int [0..<seq_len in_idx])))
       (\<lambda>pos_embeds.
     then_do (collect (map (\<lambda>t. add2 t pos_embeds) tok_embeds)) (\<lambda>x.
     case drop_emb m x g of (x, g1) \<Rightarrow>
     then_do (Sequential (trf_blocks m) x g1) (\<lambda>(x, g2).
     then_do (LayerNrom_forward (final_norm m) x) (\<lambda>x.
     then_do (on_rows (Linear_forward (out_head m)) x) (\<lambda>logits.
     Inr (logits, g2)))))))"

subsection \<open>Notions used to state the properties of the layers\<close>

text \<open>
  Standard layer normalisation of one vector of the last dimension, as the
  specification words it: \<open>scale * (x - mean(x)) / sqrt(var(x) + eps) + shift\<close>, for
  parameters as long as the vector.
\<close>

definition layer_norm_standard :: "LayerNrom \<Rightarrow> vec \<Rightarrow> vec" where
  "layer_norm_standard layer x =
     map (\<lambda>(s, y, b). s * (y - tensor_mean x) / sqrt (tensor_var x + eps layer) + b)
       (zip (scale layer) (zip x (shift layer)))"

text \<open>A tensor of shape [B, S, E].\<close>

definition shape3 :: "nat \<Rightarrow> nat \<Rightarrow> nat \<Rightarrow> 'a list list list \<Rightarrow> bool" where
  "shape3 B S E x =
     (length x = B \<and> (\<forall>m\<in>set x. length m = S \<and> (\<forall>v\<in>set m. length v = E)))"

text \<open>
  A small block on an embedding dimension of 1, on which the theorems are exercised: the
  attention returns its input, the dropout is the identity and counts its calls in the
  generator's state, the feed-forward layer returns 7 whatever its input.
\<close>

definition toy_block :: "(unit, nat) TransformerBlock" where
  "toy_block =
     \<lparr> att = (\<lambda>x g. Inr (x, g)),
       ff = \<lparr> layers_0 = \<lparr> in_features = 1, out_features = 4,
                            weight = [[0], [0], [0], [0]], bias = Some [0, 0, 0, 0] \<rparr>,
              layers_2 = \<lparr> in_features = 4, out_features = 1,
                            weight = [[1, 1, 1, 1]], bias = Some [7] \<rparr> \<rparr>,
       norm1 = \<lparr> eps = 1 / 100000, scale = [1], shift = [0] \<rparr>,
       norm2 = \<lparr> eps = 1 / 100000, scale = [1], shift = [0] \<rparr>,
       drop_shortcut = (\<lambda>x g. (x, Suc g)) \<rparr>"

text \<open>
  Parameters as the constructors build them from a configuration with \<open>vocab_size = V\<close>,
  \<open>context_length = C\<close> and \<open>emb_dim = E\<close>. The last argument of \<open>Linear_ok\<close> says whether
  the layer has a bias.
\<close>

definition Linear_ok :: "Linear \<Rightarrow> nat \<Rightarrow> nat \<Rightarrow> bool \<Rightarrow> bool" where
  "Linear_ok lin i out b =
     (in_features lin = i \<and> out_features lin = out \<and> length (weight lin) = out \<and>
      (\<forall>w\<in>set (weight lin). length w = i) \<and>
      (case bias lin of None \<Rightarrow> \<not> b | Some c \<Rightarrow> b \<and> length c = out))"

definition LayerNrom_ok :: "LayerNrom \<Rightarrow> nat \<Rightarrow> bool" where
  "LayerNrom_ok layer E = (length (scale layer) = E \<and> length (shift layer) = E)"

text \<open>Dropout keeps the shape; the attention layer, built with \<open>d_in = d_out = emb_dim\<close>,
  answers on every sequence that fits the context and keeps the shape.\<close>

definition drop_ok :: "(ten3 \<Rightarrow> 'g \<Rightarrow> ten3 \<times> 'g) \<Rightarrow> bool" where
  "drop_ok d = (\<forall>x g B S E. shape3 B S E x \<longrightarrow> shape3 B S E (fst (d x g)))"

definition att_ok :: "(ten3 \<Rightarrow> 'g \<Rightarrow> 'e + (ten3 \<times> 'g)) \<Rightarrow> nat \<Rightarrow> nat \<Rightarrow> bool" where
  "att_ok a E C =
     (\<forall>x g B S. shape3 B S E x \<and> S \<le> C \<longrightarrow> (\<exists>y g'. a x g = Inr (y, g') \<and> shape3 B S E y))"

definition TransformerBlock_ok :: "('e, 'g) TransformerBlock \<Rightarrow> nat \<Rightarrow> nat \<Rightarrow> bool" where
  "TransformerBlock_ok blk E C =
     (att_ok (att blk) E C \<and>
      Linear_ok (layers_0 (ff blk)) E (4 * E) True \<and>
      Linear_ok (layers_2 (ff blk)) (4 * E) E True \<and>
      LayerNrom_ok (norm1 blk) E \<and> LayerNrom_ok (norm2 blk) E \<and>
      drop_ok (drop_shortcut blk))"

definition GPTModel_ok :: "('e, 'g) GPTModel \<Rightarrow> nat \<Rightarrow> nat \<Rightarrow> nat \<Rightarrow> bool" where
  "GPTModel_ok m V C E =
     (length (tok_emb m) = V \<and> (\<forall>w\<in>set (tok_emb m). length w = E) \<and>
      length (pos_emb m) = C \<and> (\<forall>w\<in>set (pos_emb m). length w = E) \<and>
      drop_ok (drop_emb m) \<and>
      (\<forall>blk\<in>set (trf_blocks m). TransformerBlock_ok blk E C) \<and>
      LayerNrom_ok (final_norm m) E \<and>
      Linear_ok (out_head m) E V False)"

text \<open>A small model around the small block: two ids, a context of two positions, an
  embedding dimension of 1, one block.\<close>

definition toy_gpt :: "(unit, nat) GPTModel" where
  "toy_gpt =
     \<lparr> tok_emb = [[1], [2]],
       pos_emb = [[10], [20]],
       drop_emb = (\<lambda>x g. (x, Suc g)),
       trf_blocks = [toy_block],
       final_norm = \<lparr> eps = 1 / 100000, scale = [1], shift = [0] \<rparr>,
       out_head = \<lparr> in_features = 1, out_features = 2, weight = [[1], [- 1]],
                     bias = None \<rparr> \<rparr>"
section \<open>flow.py: MaskedDiffWithXvec\<close>

subsection \<open>Tensors with their sizes\<close>

text \<open>
  The entries of a tensor do not show the sizes inside an empty dimension: the tensors of
  shape [1, 0, 80] and [1, 0, 3] both have the entries \<open>[[]]\<close>, and the code tells them
  apart (a linear layer accepts one and raises on the other, a transposition turns them
  into 80 and into 3 empty rows). The tensors of activations and masks of the flow model
  therefore carry the sizes of their dimensions 1 and 2 with their entries; the size of
  dimension 0 is the length of the list. A tensor of ids stays the list of its rows:
  the batch of \<open>inference\<close> has one row, so the number of columns is the length of that
  row.
\<close>

datatype 'a tensor2 = Tensor2 (elems2: "'a list list") (cols: nat)

datatype 'a tensor3 = Tensor3 (elems3: "'a list list list") (size1: nat) (size2: nat)

text \<open>The number of columns of a tensor of ids.\<close>

definition ids_cols :: "ids \<Rightarrow> nat" where
  "ids_cols token = (case token of [] \<Rightarrow> 0 | row # _ \<Rightarrow> length row)"

subsection \<open>Framework primitives used by the flow model\<close>

definition mul2 :: "mat \<Rightarrow> mat \<Rightarrow> 'e error + mat" where
  "mul2 = broadcast mul1"

definition mul3 :: "ten3 \<Rightarrow> ten3 \<Rightarrow> 'e error + ten3" where
  "mul3 = broadcast mul2"

text \<open>The size of a dimension of an elementwise result: the sizes agree, or one of them
  is 1.\<close>

definition size_broadcast :: "nat \<Rightarrow> nat \<Rightarrow> nat option" where
  "size_broadcast a b =
     (if a = b then Some a else if a = 1 then Some b else if b = 1 then Some a else None)"

text \<open>The product \<^verbatim>\<open>x * y\<close> of two tensors of rank 3.\<close>

definition mul_tensor3 :: "real tensor3 \<Rightarrow> real tensor3 \<Rightarrow> 'e error + real tensor3" where
  "mul_tensor3 x y =
     (case size_broadcast (size1 x) (size1 y) of
        None \<Rightarrow> Inl RuntimeError
      | Some t \<Rightarrow>
          (case size_broadcast (size2 x) (size2 y) of
             None \<Rightarrow> Inl RuntimeError
           | Some c \<Rightarrow> then_do (mul3 (elems3 x) (elems3 y)) (\<lambda>z. Inr (Tensor3 z t c))))"

text \<open>Addition of two tensors of lengths (rank 1, integer entries).\<close>

definition add_len :: "int list \<Rightarrow> int list \<Rightarrow> 'e error + int list" where
  "add_len = broadcast (\<lambda>a b. Inr (a + b))"

text \<open>\<^verbatim>\<open>torch.concat([a, b], dim=1)\<close> on two tensors of ids of rank 2.\<close>

definition concat1 :: "ids \<Rightarrow> ids \<Rightarrow> 'e error + ids" where
  "concat1 a b = (if length a = length b then Inr (map2 (@) a b) else Inl RuntimeError)"

text \<open>\<^verbatim>\<open>torch.clamp(token, min=0)\<close>\<close>

definition clamp_min0 :: "ids \<Rightarrow> ids" where
  "clamp_min0 token = map (map (max 0)) token"

text \<open>\<^verbatim>\<open>F.normalize(embedding, dim=1)\<close>: every row divided by its Euclidean norm, the norm
  taken as at least \<open>1e-12\<close>.\<close>

definition l2_norm :: "vec \<Rightarrow> real" where
  "l2_norm v = sqrt (\<Sum>z\<leftarrow>v. z\<^sup>2)"

definition normalize :: "mat \<Rightarrow> mat" where
  "normalize x = map (\<lambda>row. map (\<lambda>y. y / max (l2_norm row) (1 / 10 ^ 12)) row) x"

definition normalize2 :: "real tensor2 \<Rightarrow> real tensor2" where
  "normalize2 x = Tensor2 (normalize (elems2 x)) (cols x)"

text \<open>A linear layer on a tensor of rank 2 and of rank 3: the size of the last dimension
  must be \<open>in_features\<close>, also when the tensor has no entries.\<close>

definition Linear_rows :: "Linear \<Rightarrow> mat \<Rightarrow> 'e error + mat" where
  "Linear_rows lin x = collect (map (Linear_forward lin) x)"

definition Linear_tensor2 :: "Linear \<Rightarrow> real tensor2 \<Rightarrow> 'e error + real tensor2" where
  "Linear_tensor2 lin x =
     (if cols x \<noteq> in_features lin then Inl RuntimeError
      else then_do (Linear_rows lin (elems2 x)) (\<lambda>y. Inr (Tensor2 y (out_features lin))))"

definition Linear_tensor3 :: "Linear \<Rightarrow> real tensor3 \<Rightarrow> 'e error + real tensor3" where
  "Linear_tensor3 lin x =
     (if size2 x \<noteq> in_features lin then Inl RuntimeError
      else then_do (on_rows (Linear_forward lin) (elems3 x))
             (\<lambda>y. Inr (Tensor3 y (size1 x) (out_features lin))))"

text \<open>\<^verbatim>\<open>(~mask).float().unsqueeze(-1)\<close> and \<^verbatim>\<open>(~mask).to(h)\<close> followed by
  \<^verbatim>\<open>unsqueeze(1)\<close>, for a Boolean mask of shape [batch, length].\<close>

definition keep_column :: "bool tensor2 \<Rightarrow> real tensor3" where
  "keep_column pad_mask =
     Tensor3 (map (map (\<lambda>pad. [if pad then 0 else 1])) (elems2 pad_mask)) (cols pad_mask) 1"

definition keep_row :: "bool tensor2 \<Rightarrow> real tensor3" where
  "keep_row pad_mask =
     Tensor3 (map (\<lambda>row. [map (\<lambda>pad. if pad then 0 else 1) row]) (elems2 pad_mask))
       1 (cols pad_mask)"

text \<open>\<^verbatim>\<open>x.transpose(1, 2)\<close> on a tensor of rank 3: entry \<open>[b, j, i]\<close> of the result is entry
  \<open>[b, i, j]\<close> of \<open>x\<close>.\<close>

definition transpose12 :: "'a tensor3 \<Rightarrow> 'a tensor3" where
  "transpose12 x =
     Tensor3 (map (\<lambda>m. map (\<lambda>j. map (\<lambda>row. row ! j) m) [0..<size2 x]) (elems3 x))
       (size2 x) (size1 x)"

text \<open>Python's \<^verbatim>\<open>xs[:stop]\<close> selects the first \<open>slice_to_len stop n\<close> of \<open>n\<close> entries: a
  negative stop counts from the end, and both are clipped.\<close>

definition slice_to_len :: "int \<Rightarrow> nat \<Rightarrow> nat" where
  "slice_to_len stop n = nat (if stop < 0 then max (stop + int n) 0 else min stop (int n))"

text \<open>
  An assignment \<^verbatim>\<open>target[...] = source\<close> expands the source to the shape of the target:
  every dimension of the source has the size of the target's or the size 1, whether or
  not the target has entries. The target has shape \<open>[k, c]\<close>, the source \<open>[p, c']\<close>.
\<close>

definition expand_to :: "nat \<Rightarrow> nat \<Rightarrow> nat \<Rightarrow> nat \<Rightarrow> mat \<Rightarrow> 'e error + mat" where
  "expand_to k c p c' source =
     (if (p = k \<or> p = 1) \<and> (c' = c \<or> c' = 1)
      then Inr (map (\<lambda>row. if c' = c then row else replicate c (hd row))
                  (if p = k then source else replicate k (hd source)))
      else Inl RuntimeError)"

subsection \<open>The module and what it is built from\<close>

text \<open>
  The encoder, the length regulator and the decoder are handed to the constructor;
  \<open>make_pad_mask\<close> is imported from a module of the repository that is not among the
  sources; \<^verbatim>\<open>F.interpolate\<close>, \<^verbatim>\<open>random.random\<close> and \<^verbatim>\<open>random.randint\<close> are library
  functions. All of them are fields here. A module may raise and may draw from the
  random number generators, whose state is \<open>'g\<close>. The encoder and the length regulator
  return a pair whose second component the code never uses; the fields return the first.
  The arguments of \<open>decoder\<close> are \<open>mu\<close>, \<open>mask\<close>, \<open>spks\<close>, \<open>cond\<close> and \<open>n_timesteps\<close>, those of
  \<open>decoder_compute_loss\<close> are the five arguments of line 93. The embedding table has
  \<open>vocab_size\<close> rows of \<open>input_size\<close> entries (line 47).
\<close>

record ('e, 'g) MaskedDiffWithXvec =
  input_size :: nat
  output_size :: nat
  vocab_size :: nat
  input_frame_rate :: real
  input_embedding :: mat
  spk_embed_affine_layer :: Linear
  encoder :: "real tensor3 \<Rightarrow> int list \<Rightarrow> 'g \<Rightarrow> 'e + (real tensor3 \<times> 'g)"
  encoder_proj :: Linear
  length_regulator :: "real tensor3 \<Rightarrow> int list \<Rightarrow> 'g \<Rightarrow> 'e + (real tensor3 \<times> 'g)"
  decoder ::
    "real tensor3 \<Rightarrow> real tensor3 \<Rightarrow> real tensor2 \<Rightarrow> real tensor3 \<Rightarrow> nat \<Rightarrow> 'g \<Rightarrow>
     'e + (real tensor3 \<times> 'g)"
  decoder_compute_loss ::
    "real tensor3 \<Rightarrow> real tensor3 \<Rightarrow> real tensor3 \<Rightarrow> real tensor2 \<Rightarrow> real tensor3 \<Rightarrow> 'g \<Rightarrow>
     'e + (real \<times> 'g)"
  make_pad_mask :: "int list \<Rightarrow> 'e + bool tensor2"
  interpolate :: "real tensor3 \<Rightarrow> nat \<times> nat \<Rightarrow> 'e + real tensor3"
  random_random :: "'g \<Rightarrow> real \<times> 'g"
  random_randint :: "int \<Rightarrow> int \<Rightarrow> 'g \<Rightarrow> 'e + (int \<times> 'g)"

text \<open>\<^verbatim>\<open>self.input_embedding(torch.clamp(token, min=0))\<close> (lines 74 and 119).\<close>

definition embed_clamped :: "mat \<Rightarrow> ids \<Rightarrow> 'e error + ten3" where
  "embed_clamped table token =
     collect (map (\<lambda>row. collect (map (Embedding table) row)) (clamp_min0 token))"

text \<open>Lines 72 to 74 and 118 to 119: the mask is computed first, then the embeddings
  are looked up and multiplied by it.\<close>

definition masked_embedding ::
  "('e, 'g) MaskedDiffWithXvec \<Rightarrow> ids \<Rightarrow> int list \<Rightarrow> 'e error + real tensor3" where
  "masked_embedding m token token_len =
     then_do (call_module (make_pad_mask m token_len)) (\<lambda>pad.
     then_do (embed_clamped (input_embedding m) token) (\<lambda>emb.
     mul_tensor3 (Tensor3 emb (ids_cols token) (input_size m)) (keep_column pad)))"

text \<open>Lines 67 to 68 and 113 to 114.\<close>

definition xvec_projection ::
  "('e, 'g) MaskedDiffWithXvec \<Rightarrow> real tensor2 \<Rightarrow> 'e error + real tensor2" where
  "xvec_projection m embedding =
     Linear_tensor2 (spk_embed_affine_layer m) (normalize2 embedding)"

subsection \<open>inference (lines 102 to 144)\<close>

text \<open>
  Line 124. The lengths are a tensor of integers, so the quotient by the frame rate is
  computed in 32-bit floats, the framework's default, and so are the product and the
  second quotient; each operation rounds. \<^verbatim>\<open>.int()\<close> drops the fraction. (A length beyond
  the 32-bit integers, for which the conversion is not defined, would take a tensor of
  more than \<open>2 ^ 31\<close> frames.)
\<close>

definition feat_len_of :: "real \<Rightarrow> int list \<Rightarrow> int list" where
  "feat_len_of rate token_len =
     map (\<lambda>n. to_int (fl32 (fl32 (fl32 (fl32 (of_int n) / fl32 rate) * 22050) / 256)))
       token_len"

text \<open>Line 128: \<^verbatim>\<open>feat_len.max()\<close> raises on an empty tensor, and a tensor cannot have a
  negative size.\<close>

definition zero_conds :: "nat \<Rightarrow> int list \<Rightarrow> 'e error + real tensor3" where
  "zero_conds channels feat_len =
     (if feat_len = [] then Inl RuntimeError
      else if Max (set feat_len) < 0 then Inl RuntimeError
      else Inr (Tensor3 [replicate (nat (Max (set feat_len))) (replicate channels 0)]
                  (nat (Max (set feat_len))) channels))"

text \<open>
  Lines 130 to 131: \<^verbatim>\<open>conds[i, :j] = prompt_feat[i]\<close> for the pairs of
  \<^verbatim>\<open>enumerate(prompt_feat_len)\<close>. Both indexings raise IndexError when \<open>i\<close> is not below the
  size of dimension 0; the first \<open>k\<close> frames of \<open>conds[i]\<close> are then overwritten, \<open>k\<close> the
  number of frames that \<^verbatim>\<open>:j\<close> selects.
\<close>

fun fill_conds ::
  "real tensor3 \<Rightarrow> real tensor3 \<Rightarrow> (nat \<times> int) list \<Rightarrow> 'e error + real tensor3" where
  "fill_conds conds prompt_feat [] = Inr conds"
| "fill_conds conds prompt_feat ((i, j) # rest) =
     (if length (elems3 prompt_feat) \<le> i \<or> length (elems3 conds) \<le> i then Inl IndexError
      else
        let k = slice_to_len j (size1 conds) in
        then_do (expand_to k (size2 conds) (size1 prompt_feat) (size2 prompt_feat)
                   (elems3 prompt_feat ! i))
          (\<lambda>new. fill_conds
                    (Tensor3 ((elems3 conds)[i := new @ drop k (elems3 conds ! i)])
                       (size1 conds) (size2 conds))
                    prompt_feat rest))"

definition enumerate_from0 :: "'a list \<Rightarrow> (nat \<times> 'a) list" where
  "enumerate_from0 xs = zip [0..<length xs] xs"

text \<open>Line 143: \<^verbatim>\<open>feat[:, :, n:]\<close>.\<close>

definition drop_frames :: "nat \<Rightarrow> real tensor3 \<Rightarrow> real tensor3" where
  "drop_frames n d =
     Tensor3 (map (map (py_slice_from (int n))) (elems3 d)) (size1 d) (size2 d - n)"

definition inference ::
  "('e, 'g) MaskedDiffWithXvec \<Rightarrow> ids \<Rightarrow> int list \<Rightarrow> ids \<Rightarrow> int list \<Rightarrow> real tensor3 \<Rightarrow>
   int list \<Rightarrow> real tensor2 \<Rightarrow> 'g \<Rightarrow> 'e error + (real tensor3 \<times> 'g)" where
  "inference m token token_len prompt_token prompt_token_len prompt_feat prompt_feat_len
     embedding g =
     (if length token \<noteq> 1 then Inl AssertionError
      else
        then_do (xvec_projection m embedding) (\<lambda>embedding.
        then_do (concat1 prompt_token token) (\<lambda>token.
        then_do (add_len prompt_token_len token_len) (\<lambda>token_len.
        then_do (masked_embedding m token token_len) (\<lambda>token.
        then_do (call_module (encoder m token token_len g)) (\<lambda>(h, g1).
        then_do (Linear_tensor3 (encoder_proj m) h) (\<lambda>h.
        let feat_len = feat_len_of (input_frame_rate m) token_len in
        then_do (call_module (length_regulator m h feat_len g1)) (\<lambda>(h, g2).
        then_do (zero_conds (output_size m) feat_len) (\<lambda>conds.
        then_do (if size1 prompt_feat \<noteq> 0
                 then fill_conds conds prompt_feat (enumerate_from0 prompt_feat_len)
                 else Inr conds) (\<lambda>conds.
        let conds = transpose12 conds in
        then_do (call_module (make_pad_mask m feat_len)) (\<lambda>pad.
        then_do (call_module
                   (decoder m (transpose12 h) (keep_row pad) embedding conds 10 g2))
          (\<lambda>(feat, g3).
        let feat = (if size1 prompt_feat \<noteq> 0
                    then drop_frames (size1 prompt_feat) feat
                    else feat)
        in Inr (feat, g3)))))))))))))"

subsection \<open>forward (lines 55 to 100)\<close>

text \<open>The entries of the dictionary \<open>batch\<close> that \<open>forward\<close> reads.\<close>

record batch =
  speech_token :: ids
  speech_token_len :: "int list"
  speech_feat :: "real tensor3"
  speech_feat_len :: "int list"
  embedding :: "real tensor2"

text \<open>
  Lines 84 to 88, for the pairs of \<^verbatim>\<open>enumerate(feat_len)\<close>: with probability one half the
  entry is skipped, otherwise a random prefix of the features is copied into the
  conditions, which have the shape of the features. The product \<^verbatim>\<open>0.8 * j\<close> of a float
  and an entry of an integer tensor is computed in 32-bit floats.
\<close>

fun random_conds ::
  "('e, 'g) MaskedDiffWithXvec \<Rightarrow> real tensor3 \<Rightarrow> real tensor3 \<Rightarrow> (nat \<times> int) list \<Rightarrow> 'g \<Rightarrow>
   'e error + (real tensor3 \<times> 'g)" where
  "random_conds m conds feat [] g = Inr (conds, g)"
| "random_conds m conds feat ((i, j) # rest) g =
     (case random_random m g of (r, g1) \<Rightarrow>
        if r < 0.5 then random_conds m conds feat rest g1
        else
          then_do (call_module
                     (random_randint m 0 (to_int (fl32 (fl32 0.8 * fl32 (of_int j)))) g1))
            (\<lambda>(index, g2).
          if length (elems3 feat) \<le> i \<or> length (elems3 conds) \<le> i then Inl IndexError
          else
            let k = slice_to_len index (size1 feat) in
            random_conds m
              (Tensor3 ((elems3 conds)[i := take k (elems3 feat ! i) @
                                             drop k (elems3 conds ! i)])
                 (size1 conds) (size2 conds))
              feat rest g2))"

text \<open>Line 83: \<^verbatim>\<open>torch.zeros(feat.shape)\<close>.\<close>

definition zeros_like :: "real tensor3 \<Rightarrow> real tensor3" where
  "zeros_like feat =
     Tensor3 (replicate (length (elems3 feat)) (replicate (size1 feat)
                (replicate (size2 feat) 0)))
       (size1 feat) (size2 feat)"

definition forward ::
  "('e, 'g) MaskedDiffWithXvec \<Rightarrow> batch \<Rightarrow> 'g \<Rightarrow> 'e error + (real \<times> 'g)" where
  "forward m batch g =
     (let token = speech_token batch;
          token_len = speech_token_len batch;
          feat = speech_feat batch;
          feat_len = speech_feat_len batch
      in
        then_do (xvec_projection m (embedding batch)) (\<lambda>spks.
        then_do (masked_embedding m token token_len) (\<lambda>token.
        then_do (call_module (encoder m token token_len g)) (\<lambda>(h, g1).
        then_do (Linear_tensor3 (encoder_proj m) h) (\<lambda>h.
        then_do (call_module (length_regulator m h feat_len g1)) (\<lambda>(h, g2).
        then_do (random_conds m (zeros_like feat) feat (enumerate_from0 feat_len) g2)
          (\<lambda>(conds, g3).
        let conds = transpose12 conds in
        then_do (call_module (make_pad_mask m feat_len)) (\<lambda>pad.
        then_do (call_module (interpolate m feat (size1 h, size2 h))) (\<lambda>feat.
        then_do (call_module
                   (decoder_compute_loss m (transpose12 feat) (keep_row pad)
                      (transpose12 h) spks conds g3))
          (\<lambda>(loss, g4). Inr (loss, g4)))))))))))"
subsection \<open>Notions used to state the properties of the flow model\<close>

text \<open>
  An observer of the three modules that the constructor receives: the model with its
  encoder, length regulator and decoder wrapped so that every call that returns is
  written, with its arguments, at the end of a log kept beside the generator's state.
  Nothing else of the model changes.
\<close>

datatype flow_call =
    EncoderCall "real tensor3" "int list"
  | RegulatorCall "real tensor3" "int list"
  | DecoderCall "real tensor3" "real tensor3" "real tensor2" "real tensor3" nat

definition logged :: "'e + ('a \<times> 'g) \<Rightarrow> flow_call list \<Rightarrow> flow_call \<Rightarrow>
    'e + ('a \<times> ('g \<times> flow_call list))" where
  "logged r tr c = (case r of Inl e \<Rightarrow> Inl e | Inr (y, g') \<Rightarrow> Inr (y, (g', tr @ [c])))"

definition unlogged :: "'e + ('a \<times> 'g) \<Rightarrow> flow_call list \<Rightarrow>
    'e + ('a \<times> ('g \<times> flow_call list))" where
  "unlogged r tr = (case r of Inl e \<Rightarrow> Inl e | Inr (y, g') \<Rightarrow> Inr (y, (g', tr)))"

definition logging ::
  "('e, 'g) MaskedDiffWithXvec \<Rightarrow> ('e, 'g \<times> flow_call list) MaskedDiffWithXvec" where
  "logging m =
     \<lparr> input_size = input_size m,
       output_size = output_size m,
       vocab_size = vocab_size m,
       input_frame_rate = input_frame_rate m,
       input_embedding = input_embedding m,
       spk_embed_affine_layer = spk_embed_affine_layer m,
       encoder = (\<lambda>x lens (g, tr). logged (encoder m x lens g) tr (EncoderCall x lens)),
       encoder_proj = encoder_proj m,
       length_regulator =
         (\<lambda>h lens (g, tr). logged (length_regulator m h lens g) tr (RegulatorCall h lens)),
       decoder =
         (\<lambda>mu pad spks cond n (g, tr).
            logged (decoder m mu pad spks cond n g) tr (DecoderCall mu pad spks cond n)),
       decoder_compute_loss =
         (\<lambda>x1 pad mu spks cond (g, tr).
            unlogged (decoder_compute_loss m x1 pad mu spks cond g) tr),
       make_pad_mask = make_pad_mask m,
       interpolate = interpolate m,
       random_random = (\<lambda>(g, tr). case random_random m g of (r, g') \<Rightarrow> (r, (g', tr))),
       random_randint = (\<lambda>lo hi (g, tr). unlogged (random_randint m lo hi g) tr) \<rparr>"

text \<open>
  A small flow model on which the theorems are exercised: three ids embedded in two
  dimensions, two output channels, 50 tokens per second. The encoder returns its input,
  the length regulator repeats the first frame, the decoder returns \<open>mu\<close> when it has two
  channels and raises otherwise; each of them counts its call in the generator's state.
  The mask is the usual padding mask: position \<open>i\<close> of row \<open>n\<close> is padding when \<open>i \<ge> n\<close>.
\<close>

definition toy_pad_mask :: "int list \<Rightarrow> unit + bool tensor2" where
  "toy_pad_mask lens =
     (if lens = [] then Inl ()
      else Inr (Tensor2 (map (\<lambda>n. map (\<lambda>i. n \<le> int i) [0..<nat (Max (set lens))]) lens)
                  (nat (Max (set lens)))))"

definition toy_regulator :: "real tensor3 \<Rightarrow> int list \<Rightarrow> nat \<Rightarrow> unit + (real tensor3 \<times> nat)" where
  "toy_regulator h feat_len g =
     (if feat_len = [] then Inl ()
      else Inr (Tensor3 (map2 (\<lambda>frames n. replicate (nat n) (hd frames)) (elems3 h) feat_len)
                  (nat (Max (set feat_len))) (size2 h),
                Suc g))"

definition toy_decoder ::
  "real tensor3 \<Rightarrow> real tensor3 \<Rightarrow> real tensor2 \<Rightarrow> real tensor3 \<Rightarrow> nat \<Rightarrow> nat \<Rightarrow>
   unit + (real tensor3 \<times> nat)" where
  "toy_decoder mu pad spks cond n_timesteps g =
     (if size1 mu = 2 then Inr (mu, Suc g) else Inl ())"

definition toy_flow_with ::
  "(real tensor3 \<Rightarrow> real tensor3 \<Rightarrow> real tensor2 \<Rightarrow> real tensor3 \<Rightarrow> nat \<Rightarrow> nat \<Rightarrow>
    unit + (real tensor3 \<times> nat)) \<Rightarrow> (unit, nat) MaskedDiffWithXvec" where
  "toy_flow_with dec =
     \<lparr> input_size = 2,
       output_size = 2,
       vocab_size = 3,
       input_frame_rate = 50,
       input_embedding = [[1, 0], [0, 1], [1, 1]],
       spk_embed_affine_layer =
         \<lparr> in_features = 2, out_features = 2, weight = [[1, 0], [0, 1]],
           bias = Some [0, 0] \<rparr>,
       encoder = (\<lambda>x token_len g. Inr (x, Suc g)),
       encoder_proj =
         \<lparr> in_features = 2, out_features = 2, weight = [[1, 0], [0, 1]],
           bias = Some [0, 0] \<rparr>,
       length_regulator = toy_regulator,
       decoder = dec,
       decoder_compute_loss = (\<lambda>x1 pad mu spks cond g. Inr (0, Suc g)),
       make_pad_mask = toy_pad_mask,
       interpolate = (\<lambda>feat size. Inr feat),
       random_random = (\<lambda>g. (1, Suc g)),
       random_randint = (\<lambda>lo hi g. Inr (hi, Suc g)) \<rparr>"

definition toy_flow :: "(unit, nat) MaskedDiffWithXvec" where
  "toy_flow = toy_flow_with toy_decoder"

text \<open>
  The same model with a decoder of three output channels beside \<open>output_size = 2\<close>: it
  returns \<open>mu\<close> with a channel of zeros added. The constructor takes the decoder as it is
  and compares its channels with nothing.
\<close>

definition wide_decoder ::
  "real tensor3 \<Rightarrow> real tensor3 \<Rightarrow> real tensor2 \<Rightarrow> real tensor3 \<Rightarrow> nat \<Rightarrow> nat \<Rightarrow>
   unit + (real tensor3 \<times> nat)" where
  "wide_decoder mu pad spks cond n_timesteps g =
     Inr (Tensor3 (map (\<lambda>channels. channels @ [replicate (size2 mu) 0]) (elems3 mu))
            (Suc (size1 mu)) (size2 mu),
          Suc g)"

definition wide_flow :: "(unit, nat) MaskedDiffWithXvec" where
  "wide_flow = toy_flow_with wide_decoder"

text \<open>A batch for \<open>forward\<close> with one utterance of two tokens, one of them negative.\<close>

definition toy_batch :: batch where
  "toy_batch =
     \<lparr> speech_token = [[2, - 1]], speech_token_len = [2],
       speech_feat = Tensor3 [[[5, 6], [7, 8]]] 2 2, speech_feat_len = [2],
       embedding = Tensor2 [[3, 4]] 2 \<rparr>"
section \<open>Properties of the greedy generation loop\<close>

subsection \<open>The first largest entry\<close>

lemma argmax_scan_cases:
  "(argmax_scan bi bv i xs = bi \<and> (\<forall>x\<in>set xs. x \<le> bv)) \<or>
   (\<exists>k<length xs. argmax_scan bi bv i xs = i + k \<and> bv < xs ! k \<and>
        (\<forall>j<length xs. xs ! j \<le> xs ! k) \<and> (\<forall>j<k. xs ! j < xs ! k))"
proof (induction xs arbitrary: bi bv i)
  case Nil
  then show ?case by simp
next
  case (Cons x xs)
  show ?case
  proof (cases "bv < x")
    case True
    from Cons.IH[of i x "Suc i"] show ?thesis
    proof
      assume a: "argmax_scan i x (Suc i) xs = i \<and> (\<forall>y\<in>set xs. y \<le> x)"
      have "\<forall>j<length (x # xs). (x # xs) ! j \<le> (x # xs) ! 0"
        using a by (auto simp: nth_Cons split: nat.splits)
      with a True show ?thesis
        by (intro disjI2 exI[of _ 0]) simp
    next
      assume "\<exists>k<length xs. argmax_scan i x (Suc i) xs = Suc i + k \<and> x < xs ! k \<and>
        (\<forall>j<length xs. xs ! j \<le> xs ! k) \<and> (\<forall>j<k. xs ! j < xs ! k)"
      then obtain k where k: "k < length xs" "argmax_scan i x (Suc i) xs = Suc i + k"
        "x < xs ! k" "\<forall>j<length xs. xs ! j \<le> xs ! k" "\<forall>j<k. xs ! j < xs ! k" by blast
      have "\<forall>j<length (x # xs). (x # xs) ! j \<le> (x # xs) ! Suc k"
        using k by (auto simp: nth_Cons split: nat.splits)
      moreover have "\<forall>j<Suc k. (x # xs) ! j < (x # xs) ! Suc k"
        using k by (auto simp: nth_Cons split: nat.splits)
      ultimately show ?thesis using k True
        by (intro disjI2 exI[of _ "Suc k"]) simp
    qed
  next
    case False
    from Cons.IH[of bi bv "Suc i"] show ?thesis
    proof
      assume "argmax_scan bi bv (Suc i) xs = bi \<and> (\<forall>y\<in>set xs. y \<le> bv)"
      with False show ?thesis by auto
    next
      assume "\<exists>k<length xs. argmax_scan bi bv (Suc i) xs = Suc i + k \<and> bv < xs ! k \<and>
        (\<forall>j<length xs. xs ! j \<le> xs ! k) \<and> (\<forall>j<k. xs ! j < xs ! k)"
      then obtain k where k: "k < length xs" "argmax_scan bi bv (Suc i) xs = Suc i + k"
        "bv < xs ! k" "\<forall>j<length xs. xs ! j \<le> xs ! k" "\<forall>j<k. xs ! j < xs ! k" by blast
      have "\<forall>j<length (x # xs). (x # xs) ! j \<le> (x # xs) ! Suc k"
        using k False by (auto simp: nth_Cons split: nat.splits)
      moreover have "\<forall>j<Suc k. (x # xs) ! j < (x # xs) ! Suc k"
        using k False by (auto simp: nth_Cons split: nat.splits)
      ultimately show ?thesis using k False
        by (intro disjI2 exI[of _ "Suc k"]) simp
    qed
  qed
qed

lemma argmax_first_max:
  assumes "v \<noteq> []"
  shows "argmax v < length v \<and> (\<forall>j<length v. v ! j \<le> v ! argmax v) \<and>
         (\<forall>j<argmax v. v ! j < v ! argmax v)"
proof -
  from assms obtain x xs where v: "v = x # xs" by (cases v) auto
  from argmax_scan_cases[of 0 x 1 xs] show ?thesis
  proof
    assume a: "argmax_scan 0 x 1 xs = 0 \<and> (\<forall>y\<in>set xs. y \<le> x)"
    have "\<forall>j<length (x # xs). (x # xs) ! j \<le> x"
      using a by (auto simp: nth_Cons split: nat.splits)
    with a show ?thesis by (simp add: v)
  next
    assume "\<exists>k<length xs. argmax_scan 0 x 1 xs = 1 + k \<and> x < xs ! k \<and>
        (\<forall>j<length xs. xs ! j \<le> xs ! k) \<and> (\<forall>j<k. xs ! j < xs ! k)"
    then obtain k where k: "k < length xs" "argmax_scan 0 x 1 xs = Suc k"
        "x < xs ! k" "\<forall>j<length xs. xs ! j \<le> xs ! k" "\<forall>j<k. xs ! j < xs ! k" by auto
    have "\<forall>j<length (x # xs). (x # xs) ! j \<le> xs ! k"
      using k by (auto simp: nth_Cons split: nat.splits)
    moreover have "\<forall>j<Suc k. (x # xs) ! j < xs ! k"
      using k by (auto simp: nth_Cons split: nat.splits)
    ultimately show ?thesis using k by (simp add: v)
  qed
qed

lemma first_max_unique:
  fixes v :: vec
  assumes "r < length v" "\<forall>j<length v. v ! j \<le> v ! r" "\<forall>j<r. v ! j < v ! r"
      and "s < length v" "\<forall>j<length v. v ! j \<le> v ! s" "\<forall>j<s. v ! j < v ! s"
  shows "r = s"
proof (rule ccontr)
  assume "r \<noteq> s"
  then consider "r < s" | "s < r" by linarith
  then show False
  proof cases
    case 1
    with assms have "v ! r < v ! s" "v ! s \<le> v ! r" by auto
    then show False by simp
  next
    case 2
    with assms have "v ! s < v ! r" "v ! r \<le> v ! s" by auto
    then show False by simp
  qed
qed

lemma argmax_map_strict_mono:
  assumes "strict_mono f"
  shows "argmax (map f v) = argmax v"
proof (cases "v = []")
  case True
  then show ?thesis by simp
next
  case False
  note a = argmax_first_max[OF False]
  have b: "map f v \<noteq> []" using False by simp
  note c = argmax_first_max[OF b]
  have mono: "\<And>x y. x \<le> y \<Longrightarrow> f x \<le> f y" "\<And>x y. x < y \<Longrightarrow> f x < f y"
    using assms by (auto simp: strict_mono_def less_eq_real_def)
  show ?thesis
  proof (rule first_max_unique[of _ "map f v"])
    show "argmax v < length (map f v)" using a by simp
    show "\<forall>j<length (map f v). map f v ! j \<le> map f v ! argmax v"
      using a mono by simp
    show "\<forall>j<argmax v. map f v ! j < map f v ! argmax v"
      using a mono by simp
  qed (use c in auto)
qed



lemma softmax_with_nth: "i < length v \<Longrightarrow> softmax_with sm v ! i = sm v i"
  by (simp add: softmax_with_def)

subsection \<open>Rounding to 32-bit floats\<close>

lemma floor_log2:
  assumes "2 powr of_int k \<le> x" "x < 2 powr of_int (k + 1)"
  shows "\<lfloor>log 2 x\<rfloor> = k"
proof -
  have pos: "0 < x" using assms(1) by (smt (verit) powr_gt_zero)
  have "of_int k \<le> log 2 x" using assms(1) pos by (simp add: le_log_iff)
  moreover have "log 2 x < of_int (k + 1)" using assms(2) pos by (simp add: log_less_iff)
  ultimately show ?thesis by linarith
qed

lemma fl32_at:
  assumes "2 powr of_int k \<le> \<bar>x\<bar>" "\<bar>x\<bar> < 2 powr of_int (k + 1)" "- 126 \<le> k"
  shows "fl32 x = of_int (round_even (x / 2 powr of_int (k - 23))) * 2 powr of_int (k - 23)"
proof -
  have "x \<noteq> 0" using assms(1) by (smt (verit) powr_gt_zero)
  moreover have "ulp_exponent x = k - 23"
    using floor_log2[OF assms(1) assms(2)] assms(3) by (simp add: ulp_exponent_def)
  ultimately show ?thesis by (simp add: fl32_def)
qed

lemma round_even_small:
  assumes "0 \<le> y" "y < 1 / 2"
  shows "round_even y = 0"
proof -
  have "\<lfloor>y\<rfloor> = 0" using assms by (simp add: floor_eq_iff)
  then show ?thesis using assms by (simp add: round_even_def Let_def)
qed

lemma fl32_tiny:
  assumes "0 < x" "x < 2 powr (- 150)"
  shows "fl32 x = 0"
proof -
  have "x < 2 powr (- 126)"
    using assms(2) by (smt (verit) powr_less_mono)
  then have "log 2 x < - 126" using assms(1) by (simp add: log_less_iff)
  then have "\<lfloor>log 2 \<bar>x\<bar>\<rfloor> \<le> - 126" using assms(1) by (simp add: floor_le_iff)
  then have u: "ulp_exponent x = - 149" by (simp add: ulp_exponent_def)
  have "x / 2 powr (- 149) < 1 / 2"
  proof -
    have "2 powr (- 150) = 2 powr (- 149) * (1 / 2 :: real)"
      by (simp add: powr_minus)
    then have "x < 2 powr (- 149) * (1 / 2)" using assms(2) by simp
    then show ?thesis by (simp add: pos_divide_less_eq mult.commute)
  qed
  moreover have "0 < x / 2 powr (- 149)" using assms(1) by simp
  ultimately have "round_even (x / 2 powr (- 149)) = 0"
    by (intro round_even_small) simp_all
  then show ?thesis using assms(1) u by (simp add: fl32_def)
qed

lemma round_even_int: "round_even (of_int n) = n"
  by (simp add: round_even_def)

lemma fl32_1: "fl32 1 = 1"
  using fl32_at[of 0 1] by (simp add: powr_minus round_even_def)



lemma fl32_0: "fl32 0 = 0"
  by (simp add: fl32_def)


lemma fl32_m1000: "fl32 (- 1000) = - 1000"
  using fl32_at[of 9 "- 1000"] by (simp add: powr_minus round_even_def)


lemma exp_m1000_tiny: "exp (- 1000 :: real) < 2 powr (- 150)"
proof -
  have "(2::real) powr 150 \<le> exp 1 powr 150"
    using exp_ge_add_one_self[of "1::real"] by (intro powr_mono2) simp_all
  also have "\<dots> = exp 150" by (simp add: exp_powr_real)
  also have "\<dots> < exp (1000::real)" by simp
  finally have "(2::real) powr 150 < exp 1000" .
  then have "1 / exp (1000::real) < 1 / 2 powr 150"
    by (intro divide_strict_left_mono) simp_all
  then show ?thesis by (simp add: exp_minus powr_minus inverse_eq_divide)
qed

lemma fl32_exp_m1000: "fl32 (exp (- 1000)) = 0"
  by (rule fl32_tiny[OF _ exp_m1000_tiny]) simp



lemma softmax_float32_onehot:
  "softmax_float32 [0, - 1000, - 1000] = [1, 0, 0]"
  "softmax_float32 [- 1000, 0, - 1000] = [0, 1, 0]"
  "softmax_float32 [- 1000, - 1000, 0] = [0, 0, 1]"
  by (simp_all add: softmax_float32_def Let_def fl32_m1000 fl32_exp_m1000 fl32_0 fl32_1)

lemma length_softmax_float32: "length (softmax_float32 v) = length v"
  by (simp add: softmax_float32_def Let_def)

lemma softmax_with_float32: "softmax_with kernel_float32 v = softmax_float32 v"
  by (intro nth_equalityI)
     (simp_all add: softmax_with_def kernel_float32_def length_softmax_float32)

subsection \<open>One pass and many passes\<close>


lemma append_next_Inr:
  assumes "append_next sm idx logits = Inr idx'"
  shows "length logits = length idx \<and> length idx' = length idx \<and>
     (\<forall>b<length idx. logits ! b \<noteq> [] \<and> last (logits ! b) \<noteq> [] \<and>
        idx' ! b = idx ! b @ [int (argmax (softmax_with sm (last (logits ! b))))])"
proof -
  from assms have a: "\<forall>row\<in>set logits. row \<noteq> [] \<and> last row \<noteq> []"
    and b: "length logits = length idx"
    and c: "idx' = map2 (@) idx (idx_next sm logits)"
    by (auto simp: append_next_def split: if_splits)
  have "\<forall>b<length idx. logits ! b \<in> set logits" using b by simp
  with a b c show ?thesis by (simp add: idx_next_def)
qed

lemma generate_step_Inr:
  fixes model :: "('e, 'g) lm"
  shows "generate_step sm model cs idx g = Inr (idx', g') \<Longrightarrow>
     \<exists>logits. model (idx_cond cs idx) g = Inr (logits, g') \<and>
        (append_next sm idx logits :: 'e error + ids) = Inr idx'"
  by (auto simp: generate_step_def split: sum.splits)

lemma generate_step_appends:
  assumes "generate_step sm model cs idx g = Inr (idx', g')"
  shows "length idx' = length idx \<and> (\<forall>b<length idx. \<exists>t. idx' ! b = idx ! b @ [t])"
  using generate_step_Inr[OF assms] append_next_Inr by blast

lemma generate_loop_appends:
  "generate_loop sm model cs n idx g = Inr (out, g') \<Longrightarrow>
     length out = length idx \<and>
     (\<forall>b<length idx. \<exists>w. length w = n \<and> out ! b = idx ! b @ w)"
proof (induction n arbitrary: idx g)
  case 0
  then show ?case by simp
next
  case (Suc n)
  from Suc.prems obtain idx1 g1 where
    s: "generate_step sm model cs idx g = Inr (idx1, g1)" and
    l: "generate_loop sm model cs n idx1 g1 = Inr (out, g')"
    by (auto split: sum.splits)
  note a = generate_step_appends[OF s]
  note b = Suc.IH[OF l]
  show ?case
  proof (intro conjI allI impI)
    show "length out = length idx" using a b by simp
  next
    fix r assume r: "r < length idx"
    from a r obtain t where t: "idx1 ! r = idx ! r @ [t]" by blast
    from b a r obtain w where w: "length w = n" "out ! r = idx1 ! r @ w" by auto
    have "length (t # w) = Suc n \<and> out ! r = idx ! r @ (t # w)" using t w by simp
    then show "\<exists>w. length w = Suc n \<and> out ! r = idx ! r @ w" by blast
  qed
qed

lemma py_slice_from_last:
  "1 \<le> c \<Longrightarrow> py_slice_from (- c) xs = last_tokens c xs"
  by (auto simp: py_slice_from_def last_tokens_def Let_def max_def nat_diff_distrib')

lemma idx_cond_last_tokens:
  "1 \<le> cs \<Longrightarrow> idx_cond cs idx = map (last_tokens cs) idx"
  by (simp add: idx_cond_def py_slice_from_last)

lemma generate_loop_prefix:
  assumes "generate_loop sm model cs n idx g = Inr (out, g')" "\<forall>row\<in>set idx. length row = T"
  shows "map (take T) out = idx"
proof -
  note a = generate_loop_appends[OF assms(1)]
  show ?thesis
  proof (rule nth_equalityI)
    show "length (map (take T) out) = length idx" using a by simp
  next
    fix i assume "i < length (map (take T) out)"
    then have i: "i < length idx" using a by simp
    then obtain w where "out ! i = idx ! i @ w" using a by blast
    moreover have "length (idx ! i) = T" using assms(2) i by simp
    ultimately show "map (take T) out ! i = idx ! i" using i a by simp
  qed
qed

lemma recording_step:
  "generate_step sm (recording model) cs idx (g, tr) =
     (case generate_step sm model cs idx g of
        Inl e \<Rightarrow> Inl e
      | Inr (idx', g') \<Rightarrow> Inr (idx', (g', tr @ [idx_cond cs idx])))"
  by (auto simp: generate_step_def recording_def split: sum.splits)

lemma recording_loop:
  "map_sum id (\<lambda>(out, s). (out, fst s)) (generate_loop sm (recording model) cs n idx (g, tr)) =
     generate_loop sm model cs n idx g"
  by (induction n arbitrary: idx g tr) (auto simp: recording_step split: sum.splits)

lemma last_tokens_props:
  assumes "1 \<le> cs" "1 \<le> length row"
  shows "1 \<le> length (last_tokens cs row) \<and> int (length (last_tokens cs row)) \<le> cs \<and>
         length (last_tokens cs row) = min (length row) (nat cs) \<and>
         set (last_tokens cs row) \<subseteq> set row"
  using assms by (auto simp: last_tokens_def dest: in_set_dropD)

lemma step_responds:
  fixes model :: "('e, 'g) lm"
  assumes cs: "1 \<le> cs" and T: "1 \<le> T"
    and rows: "\<forall>row\<in>set idx. length row = T \<and> (\<forall>t\<in>set row. 0 \<le> t \<and> t < int V)"
    and resp: "lm_responds model (length idx) cs V"
  shows "\<exists>idx' g'. generate_step sm model cs idx g = Inr (idx', g') \<and> length idx' = length idx \<and>
           (\<forall>row\<in>set idx'. length row = Suc T \<and> (\<forall>t\<in>set row. 0 \<le> t \<and> t < int V))"
proof -
  let ?x = "idx_cond cs idx"
  have x: "?x = map (last_tokens cs) idx" using cs by (rule idx_cond_last_tokens)
  have xr: "\<forall>r\<in>set ?x. length r = min T (nat cs) \<and> (\<forall>t\<in>set r. 0 \<le> t \<and> t < int V)"
  proof
    fix r assume "r \<in> set ?x"
    then obtain row where row: "row \<in> set idx" "r = last_tokens cs row" by (auto simp: x)
    with rows T have r1: "1 \<le> length row" and r2: "length row = T" by auto
    have "length r = min T (nat cs)"
      using last_tokens_props[OF cs r1] r2 row by simp
    moreover have "\<forall>t\<in>set r. 0 \<le> t \<and> t < int V"
      using last_tokens_props[OF cs r1] row rows by blast
    ultimately show "length r = min T (nat cs) \<and> (\<forall>t\<in>set r. 0 \<le> t \<and> t < int V)" ..
  qed
  have "1 \<le> min T (nat cs)" "int (min T (nat cs)) \<le> cs" using cs T by simp_all
  with xr have "length ?x = length idx \<and>
        (\<exists>L. 1 \<le> L \<and> int L \<le> cs \<and>
           (\<forall>r\<in>set ?x. length r = L \<and> (\<forall>t\<in>set r. 0 \<le> t \<and> t < int V)))"
    by (intro conjI exI[of _ "min T (nat cs)"]) (simp_all add: x)
  with resp obtain l g' where l: "model ?x g = Inr (l, g')" "length l = length idx"
    "\<forall>r\<in>set l. r \<noteq> [] \<and> last r \<noteq> [] \<and> length (last r) \<le> V"
    unfolding lm_responds_def by blast
  let ?idx' = "map2 (@) idx (idx_next sm l)"
  have an: "(append_next sm idx l :: 'e error + ids) = Inr ?idx'"
    using l by (auto simp: append_next_def)
  have st: "generate_step sm model cs idx g = Inr (?idx', g')"
    using l(1) an by (simp add: generate_step_def)
  have len: "length ?idx' = length idx" using l by (simp add: idx_next_def)
  have "\<forall>row\<in>set ?idx'. length row = Suc T \<and> (\<forall>t\<in>set row. 0 \<le> t \<and> t < int V)"
  proof
    fix row assume "row \<in> set ?idx'"
    then obtain b where b: "b < length idx" "row = ?idx' ! b"
      using len by (metis in_set_conv_nth)
    have lb: "l ! b \<in> set l" "idx ! b \<in> set idx" using b l by simp_all
    let ?v = "last (l ! b)"
    have v: "?v \<noteq> []" "length ?v \<le> V" using l lb by auto
    have "softmax_with sm ?v \<noteq> []" using v by (simp add: softmax_with_def)
    from argmax_first_max[OF this] have "argmax (softmax_with sm ?v) < length ?v"
      by (simp add: softmax_with_def)
    then have t: "int (argmax (softmax_with sm ?v)) < int V" using v by simp
    have r: "row = idx ! b @ [int (argmax (softmax_with sm ?v))]"
      using b l by (simp add: idx_next_def)
    show "length row = Suc T \<and> (\<forall>t\<in>set row. 0 \<le> t \<and> t < int V)"
      using r t rows lb by auto
  qed
  with st len show ?thesis by blast
qed

lemma loop_responds:
  fixes model :: "('e, 'g) lm"
  assumes cs: "1 \<le> cs" and T: "1 \<le> T"
    and rows: "\<forall>row\<in>set idx. length row = T \<and> (\<forall>t\<in>set row. 0 \<le> t \<and> t < int V)"
    and resp: "lm_responds model (length idx) cs V"
  shows "\<exists>out g' calls.
           generate_loop sm (recording model) cs n idx (g, tr) = Inr (out, (g', tr @ calls)) \<and>
           length calls = n \<and>
           (\<forall>k<n. calls ! k = map (last_tokens cs) (map (take (T + k)) out)) \<and>
           length out = length idx \<and>
           (\<forall>row\<in>set out. length row = T + n \<and> (\<forall>t\<in>set row. 0 \<le> t \<and> t < int V))"
  using T rows resp
proof (induction n arbitrary: idx g tr T)
  case 0
  then show ?case by simp
next
  case (Suc n)
  from step_responds[OF cs Suc.prems(1) Suc.prems(2) Suc.prems(3), where g = g and sm = sm]
  obtain idx1 g1 where s: "generate_step sm model cs idx g = Inr (idx1, g1)"
    and len1: "length idx1 = length idx"
    and rows1: "\<forall>row\<in>set idx1. length row = Suc T \<and> (\<forall>t\<in>set row. 0 \<le> t \<and> t < int V)"
    by blast
  have T1: "1 \<le> Suc T" by simp
  have resp1: "lm_responds model (length idx1) cs V" using Suc.prems(3) len1 by simp
  from Suc.IH[OF T1 rows1 resp1, of g1 "tr @ [idx_cond cs idx]"]
  obtain out g' calls where
    l: "generate_loop sm (recording model) cs n idx1 (g1, tr @ [idx_cond cs idx]) =
          Inr (out, (g', (tr @ [idx_cond cs idx]) @ calls))"
    and c: "length calls = n"
      "\<forall>k<n. calls ! k = map (last_tokens cs) (map (take (Suc T + k)) out)"
    and o: "length out = length idx1"
      "\<forall>row\<in>set out. length row = Suc T + n \<and> (\<forall>t\<in>set row. 0 \<le> t \<and> t < int V)"
    by blast
  have whole: "generate_loop sm (recording model) cs (Suc n) idx (g, tr) =
                 Inr (out, (g', tr @ (idx_cond cs idx # calls)))"
    using s l by (simp add: recording_step)
  have "\<forall>row\<in>set idx. length row = T" using Suc.prems(2) by simp
  from generate_loop_prefix[OF whole this] have pre: "map (take T) out = idx" .
  have "\<forall>k<Suc n. (idx_cond cs idx # calls) ! k =
          map (last_tokens cs) (map (take (T + k)) out)"
  proof (intro allI impI)
    fix k assume k: "k < Suc n"
    show "(idx_cond cs idx # calls) ! k = map (last_tokens cs) (map (take (T + k)) out)"
    proof (cases k)
      case 0
      then show ?thesis using pre idx_cond_last_tokens[OF cs, of idx] by simp
    next
      case (Suc k')
      then show ?thesis using c k by simp
    qed
  qed
  with whole c o len1 show ?case
    by (intro exI[of _ out] exI[of _ g'] exI[of _ "idx_cond cs idx # calls"]) simp
qed

subsection \<open>The example model\<close>

lemmas toy_eval = generate_text_simple_def eval_nat_numeral generate_step_def idx_cond_def
  py_slice_from_def append_next_def idx_next_def softmax_with_float32 softmax_float32_onehot
  toy_lm_def tie_lm_def Let_def recording_def

lemma toy_responds: "lm_responds toy_lm B cs 3"
proof -
  have "\<And>r :: int list. 1 \<le> length r \<Longrightarrow> r \<noteq> []" by auto
  then show ?thesis
    unfolding lm_responds_def toy_lm_def by (fastforce simp: last_map)
qed

subsection \<open>Greedy selection\<close>




subsection \<open>The prompt is kept\<close>

text \<open>
  Claim C8. When \<open>generate_text_simple\<close> returns \<open>out\<close> for an input \<open>idx\<close> whose rows have
  length \<open>T\<close>, then \<open>out\<close> has the rows of \<open>idx\<close> as its first \<open>T\<close> columns, and every row of
  \<open>out\<close> is the row of \<open>idx\<close> followed by the generated tokens, as many as there were passes.
  This holds whatever the softmax kernel computes.
\<close>

theorem generate_keeps_prompt:
  assumes "generate_text_simple sm model idx max_new_tokens context_size g = Inr (out, g')"
    and "\<forall>row\<in>set idx. length row = T"
  shows "length out = length idx \<and> map (take T) out = idx \<and>
         (\<forall>b<length idx. \<exists>w. length w = nat max_new_tokens \<and> out ! b = idx ! b @ w)"
  using generate_loop_appends[of sm model context_size "nat max_new_tokens" idx g out g']
    generate_loop_prefix[of sm model context_size "nat max_new_tokens" idx g out g' T] assms
  by (simp add: generate_text_simple_def)

text \<open>The theorem at the example model.\<close>

theorem generate_keeps_prompt_witness:
  "length [[0, 1, 2, 0], [2, 2, 0, 1 :: int]] = length [[0, 1], [2, 2 :: int]] \<and>
   map (take 2) [[0, 1, 2, 0], [2, 2, 0, 1]] = [[0, 1], [2, 2 :: int]] \<and>
   (\<exists>w. length w = nat 2 \<and> [[0, 1, 2, 0], [2, 2, 0, 1]] ! 1 = [[0, 1], [2, 2 :: int]] ! 1 @ w)"
proof -
  have run: "generate_text_simple kernel_float32 toy_lm [[0, 1], [2, 2]] 2 1 0 =
               Inr ([[0, 1, 2, 0], [2, 2, 0, 1]], 2)"
    by (simp add: toy_eval)
  have rows: "\<forall>row\<in>set [[0, 1], [2, 2 :: int]]. length row = 2" by simp
  from generate_keeps_prompt[OF run rows] show ?thesis by simp
qed

subsection \<open>Number of passes and length of the result\<close>

text \<open>
  Claim C4, as amended. Let \<open>max_new_tokens \<ge> 0\<close> and \<open>context_size \<ge> 1\<close>, let the rows of
  \<open>idx\<close> have one length \<open>T \<ge> 1\<close> and ids below \<open>V\<close>, and let the model answer on every batch
  of contexts of at most \<open>context_size\<close> tokens. Then \<open>generate_text_simple\<close> returns. Run
  under the observer, the model is called exactly \<open>max_new_tokens\<close> times; call \<open>k\<close> is on the
  last \<open>context_size\<close> tokens of the sequence as it stands after \<open>k\<close> passes (the first
  \<open>T + k\<close> columns of the result); and every row of the result has length
  \<open>T + max_new_tokens\<close>. This holds whatever the softmax kernel computes.
\<close>

theorem generate_length:
  fixes model :: "('e, 'g) lm"
  assumes "0 \<le> max_new_tokens" and "1 \<le> context_size" and "1 \<le> T"
    and "\<forall>row\<in>set idx. length row = T \<and> (\<forall>t\<in>set row. 0 \<le> t \<and> t < int V)"
    and "lm_responds model (length idx) context_size V"
  shows "\<exists>out g' calls.
           generate_text_simple sm (recording model) idx max_new_tokens context_size (g, []) =
             Inr (out, (g', calls)) \<and>
           generate_text_simple sm model idx max_new_tokens context_size g = Inr (out, g') \<and>
           length calls = nat max_new_tokens \<and>
           (\<forall>k<nat max_new_tokens.
              calls ! k = map (last_tokens context_size) (map (take (T + k)) out)) \<and>
           length out = length idx \<and>
           (\<forall>row\<in>set out. length row = T + nat max_new_tokens)"
proof -
  from loop_responds[OF assms(2) assms(3) assms(4) assms(5),
      where n = "nat max_new_tokens" and g = g and tr = "[]" and sm = sm]
  obtain out g' calls where
    r: "generate_loop sm (recording model) context_size (nat max_new_tokens) idx (g, []) =
          Inr (out, (g', calls))"
    and c: "length calls = nat max_new_tokens"
      "\<forall>k<nat max_new_tokens.
         calls ! k = map (last_tokens context_size) (map (take (T + k)) out)"
    and o: "length out = length idx" "\<forall>row\<in>set out. length row = T + nat max_new_tokens"
    by auto
  have "generate_loop sm model context_size (nat max_new_tokens) idx g = Inr (out, g')"
    using recording_loop[of sm model context_size "nat max_new_tokens" idx g "[]"] r by simp
  with r c o show ?thesis by (simp add: generate_text_simple_def)
qed

text \<open>The theorem at the example model, two rows, two passes, a context of one token.\<close>

theorem generate_length_witness:
  "\<exists>out g' calls.
     generate_text_simple kernel_float32 (recording toy_lm) [[0, 1], [2, 2]] 2 1 (0, []) =
       Inr (out, (g', calls)) \<and>
     generate_text_simple kernel_float32 toy_lm [[0, 1], [2, 2]] 2 1 0 = Inr (out, g') \<and>
     length calls = nat 2 \<and>
     (\<forall>k<nat 2. calls ! k = map (last_tokens 1) (map (take (2 + k)) out)) \<and>
     length out = length [[0, 1], [2, 2 :: int]] \<and>
     (\<forall>row\<in>set out. length row = 2 + nat 2)"
  by (rule generate_length[where V = 3]) (simp_all add: toy_responds)

text \<open>
  Claim C4 as stated fails for \<open>context_size = 0\<close>: \<^verbatim>\<open>idx[:, -0:]\<close> is the whole sequence,
  so the model is called on both tokens of the row, while the last 0 tokens of the row
  are the empty list.
\<close>

theorem generate_context_counterexample:
  "generate_text_simple kernel_float32 (recording toy_lm) [[0, 1]] 1 0 (0, []) =
     Inr ([[0, 1, 2]], (1, [[[0, 1]]])) \<and>
   map (last_tokens 0) [[0, 1 :: int]] = [[]] \<and>
   [[0, 1]] \<noteq> map (last_tokens 0) [[0, 1 :: int]]"
  by (simp add: toy_eval last_tokens_def)

section \<open>Properties of the layers of the model\<close>

subsection \<open>LayerNrom\<close>

lemmas layer_eval = LayerNrom_forward_def on_rows_def LayerNrom_row_def tensor_mean_def
  tensor_var_def then_do_def mul1_def add1_def broadcast_def mul0_def add0_def Let_def
  layer_norm_standard_def

text \<open>
  Claim C2. Standard layer normalisation of the row \<open>[1, 3]\<close> with \<open>scale = [1, 1]\<close>,
  \<open>shift = [0, 0]\<close> and \<open>eps = 1e-5\<close> is \<open>[- c, c]\<close> with \<open>c = 1 / sqrt (1 + eps)\<close>. The
  layer of the source (line 59 subtracts the mean a second time after scaling) returns
  \<open>[- c - 2, c - 2]\<close>: the standard result minus the mean 2 of the row.
\<close>

theorem LayerNrom_subtracts_mean:
  "LayerNrom_forward \<lparr> eps = 1 / 100000, scale = [1, 1], shift = [0, 0] \<rparr> [[[1, 3]]] =
     Inr [[[- 1 / sqrt (1 + 1 / 100000) - 2, 1 / sqrt (1 + 1 / 100000) - 2]]] \<and>
   layer_norm_standard \<lparr> eps = 1 / 100000, scale = [1, 1], shift = [0, 0] \<rparr> [1, 3] =
     [- 1 / sqrt (1 + 1 / 100000), 1 / sqrt (1 + 1 / 100000)] \<and>
   LayerNrom_forward \<lparr> eps = 1 / 100000, scale = [1, 1], shift = [0, 0] \<rparr> [[[1, 3]]] \<noteq>
     Inr [[layer_norm_standard \<lparr> eps = 1 / 100000, scale = [1, 1], shift = [0, 0] \<rparr>
             [1, 3]]]"
  by (simp add: layer_eval power2_eq_square)

subsection \<open>Sequencing and broadcasting\<close>

lemma collect_map_Inr:
  "(\<forall>x\<in>set xs. f x = Inr (h x)) \<Longrightarrow> collect (map f xs) = Inr (map h xs)"
  by (induction xs) auto

lemma broadcast_commute:
  assumes "\<And>a b. f a b = f' b a"
  shows "broadcast f xs ys = broadcast f' ys xs"
proof -
  have f: "f = (\<lambda>a b. f' b a)" using assms by (intro ext) simp
  have "map2 (\<lambda>a b. f' b a) xs ys = map2 f' ys xs"
    by (induction xs arbitrary: ys) (auto simp: zip_Cons1 split: list.splits)
  then show ?thesis unfolding f by (auto simp: broadcast_def)
qed

lemma add1_commute: "add1 a b = add1 b a"
  unfolding add1_def by (rule broadcast_commute) (simp add: add0_def add.commute)

lemma add2_commute: "add2 a b = add2 b a"
  unfolding add2_def by (rule broadcast_commute) (rule add1_commute)

lemma add3_commute: "add3 a b = add3 b a"
  unfolding add3_def by (rule broadcast_commute) (rule add2_commute)

subsection \<open>The residual connections of a block\<close>

text \<open>
  Claim C5. A block returns \<open>out\<close> exactly when, with \<open>n1\<close> the first normalisation of the
  input \<open>x\<close>, \<open>a\<close> the attention on \<open>n1\<close> and \<open>d1\<close> the dropout of \<open>a\<close>, the sum \<open>y = x + d1\<close>
  exists, and with \<open>n2\<close> the second normalisation of \<open>y\<close>, \<open>f\<close> the feed-forward layer on
  \<open>n2\<close> and \<open>z\<close> the dropout of \<open>f\<close>, the output is \<open>out = y + z\<close>: the input of each of the
  two sublayers is added to its output after dropout, attention first, feed-forward
  second. The generator's state passes through the attention and the two dropouts in
  this order.
\<close>

theorem TransformerBlock_residual:
  fixes blk :: "('e, 'g) TransformerBlock"
  shows "TransformerBlock_forward blk x g = Inr (out, g') \<longleftrightarrow>
     (\<exists>n1 a g1 d1 g2 y n2 f z.
        (LayerNrom_forward (norm1 blk) x :: 'e error + ten3) = Inr n1 \<and>
        att blk n1 g = Inr (a, g1) \<and>
        drop_shortcut blk a g1 = (d1, g2) \<and>
        (add3 x d1 :: 'e error + ten3) = Inr y \<and>
        (LayerNrom_forward (norm2 blk) y :: 'e error + ten3) = Inr n2 \<and>
        (FeedForward_forward (ff blk) n2 :: 'e error + ten3) = Inr f \<and>
        drop_shortcut blk f g2 = (z, g') \<and>
        (add3 y z :: 'e error + ten3) = Inr out)"
  unfolding TransformerBlock_forward_def
  by (auto simp: then_do_def call_module_def Let_def add3_commute
      split: sum.splits prod.splits)

lemmas block_eval = TransformerBlock_forward_def FeedForward_forward_def FeedForward_row_def
  Linear_forward_def dot_def GELU_forward_def call_module_def add3_def add2_def toy_block_def
  layer_eval

text \<open>The theorem at the small block: the input 5 is normalised to -5, the first sum is
  0, the feed-forward layer gives 7, and the block returns 0 + 7.\<close>

theorem TransformerBlock_residual_witness:
  "\<exists>n1 a g1 d1 g2 y n2 f z.
     (LayerNrom_forward (norm1 toy_block) [[[5]]] :: unit error + ten3) = Inr n1 \<and>
     att toy_block n1 0 = Inr (a, g1) \<and>
     drop_shortcut toy_block a g1 = (d1, g2) \<and>
     (add3 [[[5]]] d1 :: unit error + ten3) = Inr y \<and>
     (LayerNrom_forward (norm2 toy_block) y :: unit error + ten3) = Inr n2 \<and>
     (FeedForward_forward (ff toy_block) n2 :: unit error + ten3) = Inr f \<and>
     drop_shortcut toy_block f g2 = (z, 2) \<and>
     (add3 y z :: unit error + ten3) = Inr [[[7]]]"
proof -
  have run: "TransformerBlock_forward toy_block [[[5]]] 0 = Inr ([[[7]]], 2)"
    by (simp add: block_eval)
  show ?thesis by (rule iffD1[OF TransformerBlock_residual run])
qed

lemma collect_Inr_nth:
  "collect rs = Inr ys \<Longrightarrow> length ys = length rs \<and> (\<forall>i<length rs. rs ! i = Inr (ys ! i))"
proof (induction rs arbitrary: ys)
  case Nil
  then show ?case by simp
next
  case (Cons r rs)
  then show ?case
    by (auto split: sum.splits simp: nth_Cons split: nat.splits)
qed

lemma broadcast_same:
  "length xs = length ys \<Longrightarrow> broadcast f xs ys = collect (map2 f xs ys)"
  by (simp add: broadcast_def)

lemma add1_same: "length a = length b \<Longrightarrow> add1 a b = Inr (map2 (+) a b)"
proof -
  assume l: "length a = length b"
  have "collect (map (\<lambda>(p, q). add0 p q) (zip a b)) = Inr (map (\<lambda>(p, q). p + q) (zip a b))"
    by (rule collect_map_Inr) (auto simp: add0_def)
  with l show ?thesis by (simp add: add1_def broadcast_same)
qed

lemma mul1_same: "length a = length b \<Longrightarrow> mul1 a b = Inr (map2 (*) a b)"
proof -
  assume l: "length a = length b"
  have "collect (map (\<lambda>(p, q). mul0 p q) (zip a b)) = Inr (map (\<lambda>(p, q). p * q) (zip a b))"
    by (rule collect_map_Inr) (auto simp: mul0_def)
  with l show ?thesis by (simp add: mul1_def broadcast_same)
qed

lemma add2_same:
  assumes "length a = length b" "\<forall>(r, s)\<in>set (zip a b). length r = length s"
  shows "add2 a b = Inr (map2 (map2 (+)) a b)"
proof -
  have "collect (map (\<lambda>(p, q). add1 p q) (zip a b)) =
          Inr (map (\<lambda>(p, q). map2 (+) p q) (zip a b))"
    by (rule collect_map_Inr) (use assms(2) in \<open>auto simp: add1_same\<close>)
  with assms(1) show ?thesis by (simp add: add2_def broadcast_same)
qed

lemma add3_same:
  assumes "length a = length b"
    "\<forall>(m, n)\<in>set (zip a b). length m = length n \<and> (\<forall>(r, s)\<in>set (zip m n). length r = length s)"
  shows "add3 a b = Inr (map2 (map2 (map2 (+))) a b)"
proof -
  have "collect (map (\<lambda>(p, q). add2 p q) (zip a b)) =
          Inr (map (\<lambda>(p, q). map2 (map2 (+)) p q) (zip a b))"
    by (rule collect_map_Inr) (use assms(2) in \<open>auto simp: add2_same\<close>)
  with assms(1) show ?thesis by (simp add: add3_def broadcast_same)
qed

lemma shape3_zip:
  assumes "shape3 B S E a" "shape3 B S E b"
  shows "length a = length b \<and>
    (\<forall>(m, n)\<in>set (zip a b). length m = length n \<and> (\<forall>(r, s)\<in>set (zip m n). length r = length s))"
proof -
  have "\<And>m n. (m, n) \<in> set (zip a b) \<Longrightarrow> m \<in> set a \<and> n \<in> set b"
    by (auto dest: set_zip_leftD set_zip_rightD)
  moreover have "\<And>m n r s. (r, s) \<in> set (zip m n) \<Longrightarrow> r \<in> set m \<and> s \<in> set n"
    by (auto dest: set_zip_leftD set_zip_rightD)
  ultimately show ?thesis using assms unfolding shape3_def by fastforce
qed

lemma shape3_add:
  assumes "shape3 B S E a" "shape3 B S E b"
  shows "\<exists>c. add3 a b = Inr c \<and> shape3 B S E c"
proof -
  note z = shape3_zip[OF assms]
  have "add3 a b = Inr (map2 (map2 (map2 (+))) a b)"
    using z by (intro add3_same) auto
  moreover have "shape3 B S E (map2 (map2 (map2 (+))) a b)"
  proof -
    have "\<And>m n. (m, n) \<in> set (zip a b) \<Longrightarrow> m \<in> set a \<and> n \<in> set b"
      by (auto dest: set_zip_leftD set_zip_rightD)
    moreover have "\<And>m n r s. (r, s) \<in> set (zip m n) \<Longrightarrow> r \<in> set m \<and> s \<in> set n"
      by (auto dest: set_zip_leftD set_zip_rightD)
    ultimately show ?thesis using assms unfolding shape3_def by fastforce
  qed
  ultimately show ?thesis by blast
qed

subsection \<open>Shapes\<close>

lemma LayerNrom_row_same:
  assumes "LayerNrom_ok layer (length x)"
  shows "LayerNrom_row layer x =
           Inr (map (\<lambda>v. v - tensor_mean x) (layer_norm_standard layer x))"
proof -
  let ?m = "tensor_mean x" and ?d = "sqrt (tensor_var x + eps layer)"
  let ?norm = "map (\<lambda>y. (y - ?m) / ?d) x"
  let ?scaled = "map2 (*) (scale layer) ?norm"
  from assms have l: "length (scale layer) = length x" "length (shift layer) = length x"
    by (simp_all add: LayerNrom_ok_def)
  have a: "\<And>u. mul1 (scale layer) ?norm = Inr ?scaled"
    using l by (simp add: mul1_same)
  have b: "\<And>u. add1 (map (\<lambda>y. y - ?m) ?scaled) (shift layer) =
             Inr (map2 (+) (map (\<lambda>y. y - ?m) ?scaled) (shift layer))"
    using l by (simp add: add1_same)
  have c: "map2 (+) (map (\<lambda>y. y - ?m) ?scaled) (shift layer) =
             map (\<lambda>v. v - ?m) (layer_norm_standard layer x)"
    using l
    by (intro nth_equalityI) (simp_all add: layer_norm_standard_def)
  have "LayerNrom_row layer x = add1 (map (\<lambda>y. y - ?m) ?scaled) (shift layer)"
    unfolding LayerNrom_row_def Let_def a then_do_def by (simp only: sum.case)
  also have "\<dots> = Inr (map2 (+) (map (\<lambda>y. y - ?m) ?scaled) (shift layer))"
    by (rule b)
  finally show ?thesis by (simp only: c)
qed

lemma LayerNrom_row_shape:
  assumes "LayerNrom_ok layer (length x)"
  shows "\<exists>v. (LayerNrom_row layer x :: 'e error + vec) = Inr v \<and> length v = length x"
  using assms
  by (simp add: LayerNrom_row_same layer_norm_standard_def LayerNrom_ok_def)

lemma Linear_forward_shape:
  assumes "Linear_ok lin i out b" "length x = i"
  shows "\<exists>v. (Linear_forward lin x :: 'e error + vec) = Inr v \<and> length v = out \<and>
           (\<not> b \<longrightarrow> v = map (\<lambda>w. dot w x) (weight lin))"
  using assms by (auto simp: Linear_ok_def Linear_forward_def split: option.splits)

lemma FeedForward_row_shape:
  assumes "Linear_ok (layers_0 f) E (4 * E) True" "Linear_ok (layers_2 f) (4 * E) E True"
    "length x = E"
  shows "\<exists>v. (FeedForward_row f x :: 'e error + vec) = Inr v \<and> length v = E"
proof -
  from Linear_forward_shape[OF assms(1) assms(3)] obtain h where
    h: "(Linear_forward (layers_0 f) x :: 'e error + vec) = Inr h" "length h = 4 * E" by blast
  have "length (map GELU_forward h) = 4 * E" using h by simp
  from Linear_forward_shape[OF assms(2) this] obtain v where
    "(Linear_forward (layers_2 f) (map GELU_forward h) :: 'e error + vec) = Inr v"
    "length v = E" by blast
  with h show ?thesis by (simp add: FeedForward_row_def then_do_def)
qed

lemma on_rows_shape:
  fixes f :: "vec \<Rightarrow> 'x + vec"
  assumes x: "shape3 B S E x"
    and f: "\<And>v. length v = E \<Longrightarrow> \<exists>w. f v = Inr w \<and> length w = E'"
  shows "\<exists>y. on_rows f x = Inr y \<and> shape3 B S E' y \<and>
           (\<forall>b<B. \<forall>p<S. f (x ! b ! p) = Inr (y ! b ! p))"
proof -
  define h where "h v = projr (f v)" for v
  have fh: "\<And>v. length v = E \<Longrightarrow> f v = Inr (h v) \<and> length (h v) = E'"
    using f unfolding h_def by (metis sum.sel(2))
  have inner: "\<And>m. m \<in> set x \<Longrightarrow> collect (map f m) = Inr (map h m)"
    using x fh by (intro collect_map_Inr) (auto simp: shape3_def)
  have outer: "on_rows f x = Inr (map (map h) x)"
    unfolding on_rows_def using inner by (intro collect_map_Inr) auto
  have sh: "shape3 B S E' (map (map h) x)"
    using x fh by (auto simp: shape3_def)
  have "\<forall>b<B. \<forall>p<S. f (x ! b ! p) = Inr (map (map h) x ! b ! p)"
  proof (intro allI impI)
    fix b p assume b: "b < B" and p: "p < S"
    then have "x ! b \<in> set x" "length (x ! b) = S" using x by (auto simp: shape3_def)
    moreover from this p have "x ! b ! p \<in> set (x ! b)" by simp
    ultimately have "length (x ! b ! p) = E" using x by (auto simp: shape3_def)
    from fh[OF this] show "f (x ! b ! p) = Inr (map (map h) x ! b ! p)"
      using b p x \<open>length (x ! b) = S\<close> by (simp add: shape3_def)
  qed
  with outer sh show ?thesis by blast
qed

lemma LayerNrom_forward_shape:
  fixes x :: ten3
  assumes "shape3 B S E x" "LayerNrom_ok layer E"
  shows "\<exists>y. (LayerNrom_forward layer x :: 'e error + ten3) = Inr y \<and> shape3 B S E y"
proof -
  have "\<And>v. length v = E \<Longrightarrow>
          \<exists>w. (LayerNrom_row layer v :: 'e error + vec) = Inr w \<and> length w = E"
    using LayerNrom_row_shape assms(2) by metis
  from on_rows_shape[OF assms(1), of "LayerNrom_row layer" E, OF this]
  show ?thesis unfolding LayerNrom_forward_def by blast
qed

lemma LayerNrom_forward_entries:
  fixes x :: ten3
  assumes "shape3 B S E x" "LayerNrom_ok layer E"
    and "(LayerNrom_forward layer x :: 'e error + ten3) = Inr y"
  shows "\<forall>b<B. \<forall>p<S. y ! b ! p =
           map (\<lambda>v. v - tensor_mean (x ! b ! p)) (layer_norm_standard layer (x ! b ! p))"
proof -
  have "\<And>v. length v = E \<Longrightarrow>
          \<exists>w. (LayerNrom_row layer v :: 'e error + vec) = Inr w \<and> length w = E"
    using LayerNrom_row_shape assms(2) by metis
  from on_rows_shape[OF assms(1), of "LayerNrom_row layer" E, OF this]
  obtain y' where y': "(on_rows (LayerNrom_row layer) x :: 'e error + ten3) = Inr y'"
    "\<forall>b<B. \<forall>p<S. (LayerNrom_row layer (x ! b ! p) :: 'e error + vec) = Inr (y' ! b ! p)"
    by blast
  from y'(1) assms(3) have yy: "y' = y" by (simp add: LayerNrom_forward_def)
  show ?thesis
  proof (intro allI impI)
    fix b p assume b: "b < B" and p: "p < S"
    then have "x ! b \<in> set x" "length (x ! b) = S" using assms(1) by (auto simp: shape3_def)
    moreover from this p have "x ! b ! p \<in> set (x ! b)" by simp
    ultimately have "length (x ! b ! p) = E" using assms(1) by (auto simp: shape3_def)
    with assms(2) have "LayerNrom_ok layer (length (x ! b ! p))" by simp
    from LayerNrom_row_same[OF this] y'(2) b p yy
    show "y ! b ! p =
           map (\<lambda>v. v - tensor_mean (x ! b ! p)) (layer_norm_standard layer (x ! b ! p))"
      by (metis sum.inject(2))
  qed
qed

lemma FeedForward_forward_shape:
  fixes x :: ten3
  assumes "shape3 B S E x" "Linear_ok (layers_0 f) E (4 * E) True"
    "Linear_ok (layers_2 f) (4 * E) E True"
  shows "\<exists>y. (FeedForward_forward f x :: 'e error + ten3) = Inr y \<and> shape3 B S E y"
proof -
  have "\<And>v. length v = E \<Longrightarrow>
          \<exists>w. (FeedForward_row f v :: 'e error + vec) = Inr w \<and> length w = E"
    using FeedForward_row_shape[OF assms(2) assms(3)] by metis
  from on_rows_shape[OF assms(1), of "FeedForward_row f" E, OF this]
  show ?thesis unfolding FeedForward_forward_def by blast
qed

lemma drop_ok_shape:
  assumes "drop_ok d" "shape3 B S E x" "d x g = (y, g')"
  shows "shape3 B S E y"
  using assms unfolding drop_ok_def by (metis fst_conv)

lemma TransformerBlock_forward_shape:
  fixes blk :: "('e, 'g) TransformerBlock"
  assumes ok: "TransformerBlock_ok blk E C" and x: "shape3 B S E x" and S: "S \<le> C"
  shows "\<exists>y g'. TransformerBlock_forward blk x g = Inr (y, g') \<and> shape3 B S E y"
proof -
  from ok have att: "att_ok (att blk) E C"
    and l0: "Linear_ok (layers_0 (ff blk)) E (4 * E) True"
    and l2: "Linear_ok (layers_2 (ff blk)) (4 * E) E True"
    and n1: "LayerNrom_ok (norm1 blk) E" and n2: "LayerNrom_ok (norm2 blk) E"
    and dr: "drop_ok (drop_shortcut blk)"
    by (simp_all add: TransformerBlock_ok_def)
  from LayerNrom_forward_shape[OF x n1] obtain x1 where
    x1: "(LayerNrom_forward (norm1 blk) x :: 'e error + ten3) = Inr x1" "shape3 B S E x1"
    by blast
  from att x1(2) S obtain x2 g1 where
    x2: "att blk x1 g = Inr (x2, g1)" "shape3 B S E x2"
    unfolding att_ok_def by blast
  obtain x3 g2 where d1: "drop_shortcut blk x2 g1 = (x3, g2)" by (cases "drop_shortcut blk x2 g1")
  note x3 = drop_ok_shape[OF dr x2(2) d1]
  from shape3_add[OF x3 x] obtain x4 where
    x4: "(add3 x3 x :: 'e error + ten3) = Inr x4" "shape3 B S E x4" by blast
  from LayerNrom_forward_shape[OF x4(2) n2] obtain x5 where
    x5: "(LayerNrom_forward (norm2 blk) x4 :: 'e error + ten3) = Inr x5" "shape3 B S E x5"
    by blast
  from FeedForward_forward_shape[OF x5(2) l0 l2] obtain x6 where
    x6: "(FeedForward_forward (ff blk) x5 :: 'e error + ten3) = Inr x6" "shape3 B S E x6"
    by blast
  obtain x7 g3 where d2: "drop_shortcut blk x6 g2 = (x7, g3)" by (cases "drop_shortcut blk x6 g2")
  note x7 = drop_ok_shape[OF dr x6(2) d2]
  from shape3_add[OF x7 x4(2)] obtain x8 where
    x8: "(add3 x7 x4 :: 'e error + ten3) = Inr x8" "shape3 B S E x8" by blast
  have "TransformerBlock_forward blk x g = Inr (x8, g3)"
    unfolding TransformerBlock_forward_def
    by (simp add: Let_def then_do_def call_module_def x1 x2 d1 x4 x5 x6 d2 x8)
  with x8(2) show ?thesis by blast
qed

lemma Sequential_shape:
  fixes blks :: "('e, 'g) TransformerBlock list"
  assumes "\<forall>blk\<in>set blks. TransformerBlock_ok blk E C" "shape3 B S E x" "S \<le> C"
  shows "\<exists>y g'. Sequential blks x g = Inr (y, g') \<and> shape3 B S E y"
  using assms
proof (induction blks arbitrary: x g)
  case Nil
  then show ?case by simp
next
  case (Cons blk blks)
  from Cons.prems have ok: "TransformerBlock_ok blk E C" by simp
  from TransformerBlock_forward_shape[OF ok Cons.prems(2) Cons.prems(3), of g]
  obtain y g1 where y: "TransformerBlock_forward blk x g = Inr (y, g1)" "shape3 B S E y"
    by blast
  from Cons.prems have "\<forall>blk\<in>set blks. TransformerBlock_ok blk E C" by simp
  from Cons.IH[OF this y(2) Cons.prems(3), of g1] y(1)
  show ?case by (simp add: then_do_def)
qed

lemma Embedding_in_range:
  "0 \<le> i \<Longrightarrow> i < int (length table) \<Longrightarrow> Embedding table i = Inr (table ! nat i)"
  by (simp add: Embedding_def)

lemma seq_len_rows:
  assumes "\<forall>row\<in>set in_idx. length row = S"
  shows "in_idx \<noteq> [] \<Longrightarrow> seq_len in_idx = S" "in_idx = [] \<Longrightarrow> seq_len in_idx = 0"
  using assms by (auto simp: seq_len_def split: list.splits)

lemma embeddings_shape:
  fixes m :: "('e, 'g) GPTModel"
  assumes ok: "GPTModel_ok m V C E"
    and B: "length in_idx = B"
    and rows: "\<forall>row\<in>set in_idx. length row = S \<and> (\<forall>t\<in>set row. 0 \<le> t \<and> t < int V)"
    and S: "S \<le> C"
  shows "\<exists>tok_embeds pos_embeds x.
           (collect (map (\<lambda>row. collect (map (Embedding (tok_emb m)) row)) in_idx)
              :: 'e error + ten3) = Inr tok_embeds \<and>
           (collect (map (Embedding (pos_emb m)) (map int [0..<seq_len in_idx]))
              :: 'e error + mat) = Inr pos_embeds \<and>
           (collect (map (\<lambda>t. add2 t pos_embeds) tok_embeds) :: 'e error + ten3) = Inr x \<and>
           shape3 B S E x \<and>
           (\<forall>b<B. \<forall>p<S. x ! b ! p =
              map2 (+) (tok_emb m ! nat (in_idx ! b ! p)) (pos_emb m ! p))"
proof -
  let ?T = "tok_emb m" and ?P = "pos_emb m"
  let ?n = "seq_len in_idx"
  let ?te = "map (map (\<lambda>t. ?T ! nat t)) in_idx"
  let ?pe = "map (\<lambda>p. ?P ! p) [0..<?n]"
  let ?x = "map (\<lambda>t. map2 (map2 (+)) t ?pe) ?te"
  from ok have T: "length ?T = V" "\<forall>w\<in>set ?T. length w = E"
    and P: "length ?P = C" "\<forall>w\<in>set ?P. length w = E"
    by (simp_all add: GPTModel_ok_def)
  have n: "?n \<le> S" "in_idx \<noteq> [] \<Longrightarrow> ?n = S"
    using rows by (auto simp: seq_len_def split: list.splits)
  have tok: "\<And>u. (collect (map (\<lambda>row. collect (map (Embedding ?T) row)) in_idx)
               :: 'e error + ten3) = Inr ?te"
  proof (rule collect_map_Inr, rule ballI)
    fix row assume "row \<in> set in_idx"
    with rows T have "\<forall>t\<in>set row. (Embedding ?T t :: 'e error + vec) = Inr (?T ! nat t)"
      by (auto simp: Embedding_in_range)
    then show "(collect (map (Embedding ?T) row) :: 'e error + mat) =
                 Inr (map (\<lambda>t. ?T ! nat t) row)"
      by (rule collect_map_Inr)
  qed
  have "\<forall>p\<in>set [0..<?n]. (Embedding ?P (int p) :: 'e error + vec) = Inr (?P ! p)"
    using n S P by (auto simp: Embedding_in_range)
  then have "(collect (map (\<lambda>p. Embedding ?P (int p)) [0..<?n]) :: 'e error + mat) = Inr ?pe"
    by (rule collect_map_Inr)
  then have pos: "(collect (map (Embedding ?P) (map int [0..<?n])) :: 'e error + mat) = Inr ?pe"
    by (simp add: comp_def)
  have rowE: "\<And>row t. row \<in> set in_idx \<Longrightarrow> t \<in> set row \<Longrightarrow> length (?T ! nat t) = E"
    using rows T by (metis nat_less_iff nth_mem)
  have posE: "\<And>p. p < ?n \<Longrightarrow> length (?P ! p) = E"
    using n S P by (metis le_trans less_le_trans nth_mem not_le_imp_less not_less)
  have addrow: "\<And>t. t \<in> set ?te \<Longrightarrow>
                  (add2 t ?pe :: 'e error + mat) = Inr (map2 (map2 (+)) t ?pe)"
  proof -
    fix t assume "t \<in> set ?te"
    then obtain row where row: "row \<in> set in_idx" "t = map (\<lambda>t. ?T ! nat t) row" by auto
    then have ne: "in_idx \<noteq> []" by auto
    have len: "length t = length ?pe" using row rows n(2)[OF ne] by simp
    have "\<forall>(r, s)\<in>set (zip t ?pe). length r = length s"
    proof (clarify)
      fix r s assume "(r, s) \<in> set (zip t ?pe)"
      then obtain i where i: "i < length t" "i < length ?pe" "r = t ! i" "s = ?pe ! i"
        by (auto simp: in_set_zip)
      have "length r = E" using i row rowE[OF row(1), of "row ! i"] by simp
      moreover have "length s = E" using i posE[of i] by simp
      ultimately show "length r = length s" by simp
    qed
    with len show "(add2 t ?pe :: 'e error + mat) = Inr (map2 (map2 (+)) t ?pe)"
      by (rule add2_same)
  qed
  have x: "(collect (map (\<lambda>t. add2 t ?pe) ?te) :: 'e error + ten3) = Inr ?x"
    by (rule collect_map_Inr) (use addrow in blast)
  have elem: "\<forall>b<B. \<forall>p<S. length (?x ! b) = S \<and> length (?x ! b ! p) = E \<and>
                ?x ! b ! p = map2 (+) (?T ! nat (in_idx ! b ! p)) (?P ! p)"
  proof (intro allI impI)
    fix b p assume b: "b < B" and p: "p < S"
    then have ne: "in_idx \<noteq> []" using B by auto
    have rb: "in_idx ! b \<in> set in_idx" "length (in_idx ! b) = S" using b B rows by auto
    have nS: "?n = S" by (rule n(2)[OF ne])
    have tb: "in_idx ! b ! p \<in> set (in_idx ! b)" using rb p by simp
    have e1: "length (?T ! nat (in_idx ! b ! p)) = E" by (rule rowE[OF rb(1) tb])
    have e2: "length (?P ! p) = E" using posE[of p] p nS by simp
    show "length (?x ! b) = S \<and> length (?x ! b ! p) = E \<and>
                ?x ! b ! p = map2 (+) (?T ! nat (in_idx ! b ! p)) (?P ! p)"
      using b p B rb nS e1 e2 by simp
  qed
  have "shape3 B S E ?x"
    unfolding shape3_def
  proof (intro conjI ballI)
    show "length ?x = B" using B by simp
  next
    fix mm assume "mm \<in> set ?x"
    then obtain b where b: "b < B" "mm = ?x ! b" using B
      by (metis (no_types, lifting) in_set_conv_nth length_map)
    have ne: "in_idx \<noteq> []" using b B by auto
    have nS: "?n = S" by (rule n(2)[OF ne])
    have rb: "length (in_idx ! b) = S" using b B rows by auto
    show "length mm = S" using b rb nS B by simp
  next
    fix mm v assume "mm \<in> set ?x" "v \<in> set mm"
    then obtain b where b: "b < B" "mm = ?x ! b" using B
      by (metis (no_types, lifting) in_set_conv_nth length_map)
    have ne: "in_idx \<noteq> []" using b B by auto
    have nS: "?n = S" by (rule n(2)[OF ne])
    have rb: "length (in_idx ! b) = S" using b B rows by auto
    have "length mm = S" using b rb nS B by simp
    with \<open>v \<in> set mm\<close> obtain p where p: "p < S" "v = mm ! p"
      by (metis in_set_conv_nth)
    from elem b(1) p(1) have "length (?x ! b ! p) = E" by blast
    then show "length v = E" unfolding p(2) b(2) .
  qed
  with tok pos x elem show ?thesis by blast
qed

subsection \<open>The forward pass of the model\<close>

text \<open>
  What the forward pass does in general. Let the parameters of the model be as its
  constructor builds them for a vocabulary of \<open>V\<close> ids, a context of \<open>C\<close> positions and an
  embedding dimension \<open>E\<close>, with an attention layer and dropouts that keep the shape. For
  an input of \<open>B\<close> rows of \<open>S \<le> C\<close> ids below \<open>V\<close>, the forward pass returns. The tensor \<open>x\<close>
  it builds first has shape [B, S, E] and holds, at row \<open>b\<close> and position \<open>p\<close>, the token
  embedding of the id plus the position embedding of \<open>p\<close>; \<open>x\<close> goes through the dropout,
  then through the blocks in their order, which gives \<open>h\<close>, then through the final
  \<open>LayerNrom\<close>, which gives \<open>hn\<close>: the standard layer normalisation of \<open>h\<close> minus the mean
  of \<open>h\<close> at that row and position. The logits have shape [B, S, V], and the logit of id
  \<open>v\<close> is the product of row \<open>v\<close> of the output weight with \<open>hn\<close> at that row and position,
  no bias added.
\<close>

lemma GPTModel_forward_general:
  fixes m :: "('e, 'g) GPTModel"
  assumes ok: "GPTModel_ok m V C E"
    and B: "length in_idx = B"
    and rows: "\<forall>row\<in>set in_idx. length row = S \<and> (\<forall>t\<in>set row. 0 \<le> t \<and> t < int V)"
    and S: "S \<le> C"
  shows "\<exists>x d g1 h g' hn logits.
           shape3 B S E x \<and>
           (\<forall>b<B. \<forall>p<S. x ! b ! p =
              map2 (+) (tok_emb m ! nat (in_idx ! b ! p)) (pos_emb m ! p)) \<and>
           drop_emb m x g = (d, g1) \<and>
           Sequential (trf_blocks m) d g1 = Inr (h, g') \<and>
           (LayerNrom_forward (final_norm m) h :: 'e error + ten3) = Inr hn \<and>
           (\<forall>b<B. \<forall>p<S. hn ! b ! p =
              map (\<lambda>v. v - tensor_mean (h ! b ! p))
                (layer_norm_standard (final_norm m) (h ! b ! p))) \<and>
           GPTModel_forward m in_idx g = Inr (logits, g') \<and>
           shape3 B S V logits \<and>
           (\<forall>b<B. \<forall>p<S. \<forall>v<V.
              logits ! b ! p ! v = dot (weight (out_head m) ! v) (hn ! b ! p))"
proof -
  from embeddings_shape[OF ok B rows S] obtain tok_embeds pos_embeds x where
    te: "(collect (map (\<lambda>row. collect (map (Embedding (tok_emb m)) row)) in_idx)
              :: 'e error + ten3) = Inr tok_embeds"
    and pe: "(collect (map (Embedding (pos_emb m)) (map int [0..<seq_len in_idx]))
              :: 'e error + mat) = Inr pos_embeds"
    and x: "(collect (map (\<lambda>t. add2 t pos_embeds) tok_embeds) :: 'e error + ten3) = Inr x"
    and xs: "shape3 B S E x"
    and xe: "\<forall>b<B. \<forall>p<S. x ! b ! p =
              map2 (+) (tok_emb m ! nat (in_idx ! b ! p)) (pos_emb m ! p)"
    by blast
  from ok have dr: "drop_ok (drop_emb m)"
    and blks: "\<forall>blk\<in>set (trf_blocks m). TransformerBlock_ok blk E C"
    and fn: "LayerNrom_ok (final_norm m) E"
    and oh: "Linear_ok (out_head m) E V False"
    by (simp_all add: GPTModel_ok_def)
  obtain d g1 where d: "drop_emb m x g = (d, g1)" by (cases "drop_emb m x g")
  note ds = drop_ok_shape[OF dr xs d]
  from Sequential_shape[OF blks ds S, of g1] obtain h g' where
    h: "Sequential (trf_blocks m) d g1 = Inr (h, g')" "shape3 B S E h" by blast
  from LayerNrom_forward_shape[OF h(2) fn] obtain hn where
    hn: "(LayerNrom_forward (final_norm m) h :: 'e error + ten3) = Inr hn" "shape3 B S E hn"
    by blast
  have lin: "\<And>v. length v = E \<Longrightarrow>
               \<exists>w. (Linear_forward (out_head m) v :: 'e error + vec) = Inr w \<and> length w = V"
    using Linear_forward_shape[OF oh] by blast
  from on_rows_shape[OF hn(2), of "Linear_forward (out_head m)" V, OF lin]
  obtain logits where
    lg: "(on_rows (Linear_forward (out_head m)) hn :: 'e error + ten3) = Inr logits"
      "shape3 B S V logits"
      "\<forall>b<B. \<forall>p<S. (Linear_forward (out_head m) (hn ! b ! p) :: 'e error + vec) =
                        Inr (logits ! b ! p)"
    by blast
  have run: "GPTModel_forward m in_idx g = Inr (logits, g')"
    by (simp only: GPTModel_forward_def then_do_def te pe x d h hn lg(1) sum.case prod.case)
  have "\<forall>b<B. \<forall>p<S. \<forall>v<V.
              logits ! b ! p ! v = dot (weight (out_head m) ! v) (hn ! b ! p)"
  proof (intro allI impI)
    fix b p v assume b: "b < B" and p: "p < S" and v: "v < V"
    have "hn ! b \<in> set hn" "length (hn ! b) = S" using hn(2) b by (auto simp: shape3_def)
    moreover from this p have "hn ! b ! p \<in> set (hn ! b)" by simp
    ultimately have "length (hn ! b ! p) = E" using hn(2) by (auto simp: shape3_def)
    from Linear_forward_shape[OF oh this] obtain w where
      w: "(Linear_forward (out_head m) (hn ! b ! p) :: 'e error + vec) = Inr w"
         "w = map (\<lambda>w. dot w (hn ! b ! p)) (weight (out_head m))" by blast
    from lg(3) b p w(1) have "logits ! b ! p = w" by simp
    moreover have "length (weight (out_head m)) = V" using oh by (simp add: Linear_ok_def)
    ultimately show "logits ! b ! p ! v = dot (weight (out_head m) ! v) (hn ! b ! p)"
      using w(2) v by simp
  qed
  moreover note LayerNrom_forward_entries[OF h(2) fn hn(1)]
  ultimately show ?thesis using xs xe d h(1) hn(1) run lg(2) by blast
qed

lemma toy_block_ok: "TransformerBlock_ok toy_block 1 2"
  by (simp add: TransformerBlock_ok_def toy_block_def att_ok_def drop_ok_def Linear_ok_def
      LayerNrom_ok_def)

lemma toy_gpt_ok: "GPTModel_ok toy_gpt 2 2 1"
  using toy_block_ok
  by (simp add: GPTModel_ok_def toy_gpt_def drop_ok_def Linear_ok_def LayerNrom_ok_def)

lemma toy_blocks_run:
  "Sequential (trf_blocks toy_gpt) [[[11], [22]], [[12], [22]]] (Suc 0) =
     Inr ([[[7], [7]], [[7], [7]]], 3)"
  by (simp add: toy_gpt_def toy_block_def block_eval layer_eval call_module_def
      add3_def add2_def Linear_forward_def dot_def GELU_forward_def eval_nat_numeral)

lemma toy_final_norm:
  "(LayerNrom_forward (final_norm toy_gpt) [[[7], [7]], [[7], [7]]] :: unit error + ten3) =
     Inr [[[- 7], [- 7]], [[- 7], [- 7]]]"
  by (simp add: toy_gpt_def layer_eval)

lemma toy_gpt_run:
  "GPTModel_forward toy_gpt [[0, 1], [1, 1]] 0 =
     Inr ([[[- 7, 7], [- 7, 7]], [[- 7, 7], [- 7, 7]]], 3)"
proof -
  have e: "(collect (map (\<lambda>row. collect (map (Embedding (tok_emb toy_gpt)) row))
              [[0, 1], [1, 1]]) :: unit error + ten3) = Inr [[[1], [2]], [[2], [2]]]"
    by (simp add: toy_gpt_def Embedding_def)
  have p: "(collect (map (Embedding (pos_emb toy_gpt)) (map int [0..<seq_len [[0, 1], [1, 1]]]))
             :: unit error + mat) = Inr [[10], [20]]"
    by (simp add: toy_gpt_def Embedding_def seq_len_def upt_rec)
  have s: "(collect (map (\<lambda>t. add2 t [[10], [20]]) [[[1], [2]], [[2], [2]]])
             :: unit error + ten3) = Inr [[[11], [22]], [[12], [22]]]"
    by (simp add: add2_def add1_def add0_def broadcast_def)
  have d: "drop_emb toy_gpt [[[11], [22]], [[12], [22]]] 0 =
             ([[[11], [22]], [[12], [22]]], Suc 0)"
    by (simp add: toy_gpt_def)
  have o: "(on_rows (Linear_forward (out_head toy_gpt)) [[[- 7], [- 7]], [[- 7], [- 7]]]
             :: unit error + ten3) = Inr [[[- 7, 7], [- 7, 7]], [[- 7, 7], [- 7, 7]]]"
    by (simp add: toy_gpt_def on_rows_def Linear_forward_def dot_def)
  show ?thesis
    by (simp only: GPTModel_forward_def e p s d toy_blocks_run toy_final_norm o then_do_def
        sum.case prod.case)
qed

text \<open>
  Claim C3. The small model has two ids, a context of two positions, an embedding
  dimension of 1 and one block. On the input \<open>[[0, 1], [1, 1]]\<close> the sums of token and
  position embeddings are 11, 22, 12 and 22, and the block turns each of them into 7.
  A layer normalisation of a single entry 7 is 0 (the entry minus its mean, scaled, plus
  the shift 0), so the output projection with the weights 1 and -1 would give the logits
  \<open>[0, 0]\<close> at every position. The final \<open>LayerNrom\<close> of the source returns -7 (line 59
  subtracts the mean a second time), and the forward pass returns the logits \<open>[-7, 7]\<close>.
  The other steps are as the claim says: the embeddings are added, the dropout and the
  block are applied in this order, the projection has no bias, and the logits have the
  shape [2, 2, 2].
\<close>

theorem GPTModel_forward_final_norm:
  "GPTModel_forward toy_gpt [[0, 1], [1, 1]] 0 =
     Inr ([[[- 7, 7], [- 7, 7]], [[- 7, 7], [- 7, 7]]], 3) \<and>
   drop_emb toy_gpt [[[11], [22]], [[12], [22]]] 0 = ([[[11], [22]], [[12], [22]]], 1) \<and>
   Sequential (trf_blocks toy_gpt) [[[11], [22]], [[12], [22]]] 1 =
     Inr ([[[7], [7]], [[7], [7]]], 3) \<and>
   (LayerNrom_forward (final_norm toy_gpt) [[[7], [7]], [[7], [7]]] :: unit error + ten3) =
     Inr [[[- 7], [- 7]], [[- 7], [- 7]]] \<and>
   map (map (layer_norm_standard (final_norm toy_gpt))) [[[7], [7]], [[7], [7]]] =
     [[[0], [0]], [[0], [0]]] \<and>
   (on_rows (Linear_forward (out_head toy_gpt)) [[[0], [0]], [[0], [0]]]
      :: unit error + ten3) = Inr [[[0, 0], [0, 0]], [[0, 0], [0, 0]]]"
proof -
  have d: "drop_emb toy_gpt [[[11], [22]], [[12], [22]]] 0 =
             ([[[11], [22]], [[12], [22]]], 1)"
    by (simp add: toy_gpt_def)
  have b: "Sequential (trf_blocks toy_gpt) [[[11], [22]], [[12], [22]]] 1 =
     Inr ([[[7], [7]], [[7], [7]]], 3)"
    using toy_blocks_run by simp
  have st: "map (map (layer_norm_standard (final_norm toy_gpt))) [[[7], [7]], [[7], [7]]] =
     [[[0], [0]], [[0], [0]]]"
    by (simp add: toy_gpt_def layer_eval)
  have o: "(on_rows (Linear_forward (out_head toy_gpt)) [[[0], [0]], [[0], [0]]]
      :: unit error + ten3) = Inr [[[0, 0], [0, 0]], [[0, 0], [0, 0]]]"
    by (simp add: toy_gpt_def on_rows_def Linear_forward_def dot_def)
  from toy_gpt_run d b toy_final_norm st o show ?thesis by (intro conjI)
qed

section \<open>Properties of the flow model\<close>

subsection \<open>Which exceptions a stage can raise\<close>

lemma then_do_not:
  "r \<noteq> Inl x \<Longrightarrow> (\<And>a. f a \<noteq> Inl x) \<Longrightarrow> then_do r f \<noteq> Inl x"
  by (auto simp: then_do_def split: sum.splits)

lemma case_prod_not:
  "(\<And>a b. f a b \<noteq> Inl x) \<Longrightarrow> case_prod f p \<noteq> Inl x"
  by (cases p) simp

lemma if_not:
  "a \<noteq> Inl x \<Longrightarrow> b \<noteq> Inl x \<Longrightarrow> (if c then a else b) \<noteq> Inl x"
  by simp

lemma call_module_not: "(\<And>e. x \<noteq> ModuleError e) \<Longrightarrow> call_module r \<noteq> Inl x"
  by (cases r) (auto simp: call_module_def)

lemma collect_map_not:
  assumes "\<And>a. f a \<noteq> Inl x"
  shows "collect (map f xs) \<noteq> Inl x"
proof (induction xs)
  case Nil
  then show ?case by simp
next
  case (Cons a xs)
  have "f a \<noteq> Inl x" by (rule assms)
  with Cons show ?case by (cases "f a"; cases "collect (map f xs)") auto
qed

lemma broadcast_not:
  assumes "\<And>a b. f a b \<noteq> Inl x" "x \<noteq> RuntimeError"
  shows "broadcast f xs ys \<noteq> Inl x"
  unfolding broadcast_def
  by (intro if_not collect_map_not case_prod_not assms(1)) (simp add: assms(2)[symmetric])

lemma mul1_not: "x \<noteq> RuntimeError \<Longrightarrow> mul1 a b \<noteq> Inl x"
  unfolding mul1_def by (rule broadcast_not) (simp_all add: mul0_def)

lemma mul2_not: "x \<noteq> RuntimeError \<Longrightarrow> mul2 a b \<noteq> Inl x"
  unfolding mul2_def by (rule broadcast_not) (simp_all add: mul1_not)

lemma mul3_not: "x \<noteq> RuntimeError \<Longrightarrow> mul3 a b \<noteq> Inl x"
  unfolding mul3_def by (rule broadcast_not) (simp_all add: mul2_not)

lemma add_len_not: "x \<noteq> RuntimeError \<Longrightarrow> add_len a b \<noteq> Inl x"
  unfolding add_len_def by (rule broadcast_not) simp_all

lemma Linear_forward_not: "x \<noteq> RuntimeError \<Longrightarrow> Linear_forward lin v \<noteq> Inl x"
  by (auto simp: Linear_forward_def)

lemma Linear_rows_not: "x \<noteq> RuntimeError \<Longrightarrow> Linear_rows lin v \<noteq> Inl x"
  unfolding Linear_rows_def by (intro collect_map_not Linear_forward_not)

lemma on_rows_not:
  assumes "\<And>v. f v \<noteq> Inl x"
  shows "on_rows f t \<noteq> Inl x"
  unfolding on_rows_def by (intro collect_map_not assms)

lemma Embedding_not: "x \<noteq> IndexError \<Longrightarrow> Embedding table i \<noteq> Inl x"
  by (auto simp: Embedding_def)

lemma embed_clamped_not: "x \<noteq> IndexError \<Longrightarrow> embed_clamped table token \<noteq> Inl x"
  unfolding embed_clamped_def by (intro collect_map_not Embedding_not)

lemma mul_tensor3_not:
  assumes "x \<noteq> RuntimeError"
  shows "mul_tensor3 a b \<noteq> Inl x"
proof -
  have "then_do (mul3 (elems3 a) (elems3 b)) (\<lambda>z. Inr (Tensor3 z t c)) \<noteq> Inl x" for t c
    by (intro then_do_not mul3_not assms) simp
  then show ?thesis
    using assms unfolding mul_tensor3_def by (auto split: option.splits)
qed

lemma Linear_tensor2_not:
  assumes "x \<noteq> RuntimeError"
  shows "Linear_tensor2 lin v \<noteq> Inl x"
proof -
  have "then_do (Linear_rows lin (elems2 v)) (\<lambda>y. Inr (Tensor2 y (out_features lin))) \<noteq>
          Inl x"
    by (intro then_do_not Linear_rows_not assms) simp
  then show ?thesis using assms unfolding Linear_tensor2_def by auto
qed

lemma Linear_tensor3_not:
  assumes "x \<noteq> RuntimeError"
  shows "Linear_tensor3 lin v \<noteq> Inl x"
proof -
  have "then_do (on_rows (Linear_forward lin) (elems3 v))
          (\<lambda>y. Inr (Tensor3 y (size1 v) (out_features lin))) \<noteq> Inl x"
    by (intro then_do_not on_rows_not Linear_forward_not assms) simp
  then show ?thesis using assms unfolding Linear_tensor3_def by auto
qed

lemma masked_embedding_no_assert: "masked_embedding m token token_len \<noteq> Inl AssertionError"
  unfolding masked_embedding_def
  by (intro then_do_not call_module_not embed_clamped_not mul_tensor3_not) simp_all

lemma xvec_projection_no_assert: "xvec_projection m emb \<noteq> Inl AssertionError"
  unfolding xvec_projection_def by (rule Linear_tensor2_not) simp

lemma concat1_no_assert: "concat1 a b \<noteq> Inl AssertionError"
  by (simp add: concat1_def)

lemma zero_conds_no_assert: "zero_conds c fl \<noteq> Inl AssertionError"
  by (simp add: zero_conds_def)

lemma expand_to_no_assert: "expand_to k c p c' s \<noteq> Inl AssertionError"
  by (simp add: expand_to_def)

lemma fill_conds_no_assert: "fill_conds conds pf ijs \<noteq> Inl AssertionError"
proof (induction ijs arbitrary: conds)
  case Nil
  then show ?case by simp
next
  case (Cons ij ijs)
  obtain i j where ij: "ij = (i, j)" by (cases ij)
  show ?case unfolding ij fill_conds.simps Let_def
    by (intro if_not then_do_not expand_to_no_assert Cons.IH) simp
qed

subsection \<open>The assertion on the batch size\<close>

text \<open>
  Claim C9. \<open>inference\<close> raises AssertionError exactly when the first dimension of \<open>token\<close>
  is not 1. This holds whatever the other arguments and the modules are, also when a
  later stage would raise, so the assertion is decided before anything else is computed;
  and when the first dimension is 1 no stage of the function raises AssertionError.
\<close>

theorem inference_assertion:
  "inference m token token_len prompt_token prompt_token_len prompt_feat prompt_feat_len
     emb g = Inl AssertionError \<longleftrightarrow> length token \<noteq> 1"
proof (cases "length token = 1")
  case False
  then show ?thesis by (simp add: inference_def)
next
  case True
  have "inference m token token_len prompt_token prompt_token_len prompt_feat prompt_feat_len
     emb g \<noteq> Inl AssertionError"
    unfolding inference_def Let_def
    apply (subst if_not_P)
     apply (simp add: True)
    apply (intro if_not then_do_not case_prod_not xvec_projection_no_assert
        concat1_no_assert add_len_not masked_embedding_no_assert call_module_not
        Linear_tensor3_not zero_conds_no_assert fill_conds_no_assert)
                     apply simp_all
    done
  with True show ?thesis by simp
qed

subsection \<open>The stages of inference\<close>

lemma then_do_Inr:
  "then_do r f = Inr b \<longleftrightarrow> (\<exists>a. r = Inr a \<and> f a = Inr b)"
  by (cases r) (simp_all add: then_do_def)

lemma call_module_Inr: "call_module r = Inr a \<longleftrightarrow> r = Inr a"
  by (cases r) (simp_all add: call_module_def)

lemma inference_Inr:
  fixes m :: "('e, 'g) MaskedDiffWithXvec"
  shows "inference m token token_len prompt_token prompt_token_len prompt_feat prompt_feat_len
           emb g = Inr (feat, g') \<longleftrightarrow>
     length token = 1 \<and>
     (\<exists>spks tok tlen x h0 g1 h1 h2 g2 conds0 conds pad d.
        (xvec_projection m emb :: 'e error + real tensor2) = Inr spks \<and>
        (concat1 prompt_token token :: 'e error + ids) = Inr tok \<and>
        (add_len prompt_token_len token_len :: 'e error + int list) = Inr tlen \<and>
        masked_embedding m tok tlen = Inr x \<and>
        encoder m x tlen g = Inr (h0, g1) \<and>
        (Linear_tensor3 (encoder_proj m) h0 :: 'e error + real tensor3) = Inr h1 \<and>
        length_regulator m h1 (feat_len_of (input_frame_rate m) tlen) g1 = Inr (h2, g2) \<and>
        (zero_conds (output_size m) (feat_len_of (input_frame_rate m) tlen)
           :: 'e error + real tensor3) = Inr conds0 \<and>
        (if size1 prompt_feat \<noteq> 0
         then fill_conds conds0 prompt_feat (enumerate_from0 prompt_feat_len)
         else (Inr conds0 :: 'e error + real tensor3)) = Inr conds \<and>
        make_pad_mask m (feat_len_of (input_frame_rate m) tlen) = Inr pad \<and>
        decoder m (transpose12 h2) (keep_row pad) spks (transpose12 conds) 10 g2 =
          Inr (d, g') \<and>
        feat = (if size1 prompt_feat \<noteq> 0 then drop_frames (size1 prompt_feat) d else d))"
proof (cases "size1 prompt_feat = 0")
  case True
  show ?thesis
    unfolding inference_def Let_def
    by (auto simp: True then_do_Inr call_module_Inr)
next
  case False
  show ?thesis
    unfolding inference_def Let_def
    by (auto simp: False then_do_Inr call_module_Inr)
qed

subsection \<open>The calls of the modules, observed\<close>

lemma logging_fields:
  "input_size (logging m) = input_size m"
  "output_size (logging m) = output_size m"
  "vocab_size (logging m) = vocab_size m"
  "input_frame_rate (logging m) = input_frame_rate m"
  "input_embedding (logging m) = input_embedding m"
  "spk_embed_affine_layer (logging m) = spk_embed_affine_layer m"
  "encoder_proj (logging m) = encoder_proj m"
  "make_pad_mask (logging m) = make_pad_mask m"
  "encoder (logging m) x lens (g, tr) = logged (encoder m x lens g) tr (EncoderCall x lens)"
  "length_regulator (logging m) h lens (g, tr) =
     logged (length_regulator m h lens g) tr (RegulatorCall h lens)"
  "decoder (logging m) mu pad spks cond n (g, tr) =
     logged (decoder m mu pad spks cond n g) tr (DecoderCall mu pad spks cond n)"
  by (simp_all add: logging_def)

lemma masked_embedding_logging:
  "masked_embedding (logging m) token token_len = masked_embedding m token token_len"
  by (simp add: masked_embedding_def logging_fields)

lemma xvec_projection_logging: "xvec_projection (logging m) emb = xvec_projection m emb"
  by (simp add: xvec_projection_def logging_fields)

lemma inference_logged:
  fixes m :: "('e, 'g) MaskedDiffWithXvec"
  shows "inference m token token_len prompt_token prompt_token_len prompt_feat prompt_feat_len
           emb g = Inr (feat, g') \<longleftrightarrow>
     length token = 1 \<and>
     (\<exists>spks tok tlen x h0 g1 h1 flen h2 g2 conds0 conds pad d.
        (xvec_projection m emb :: 'e error + real tensor2) = Inr spks \<and>
        (concat1 prompt_token token :: 'e error + ids) = Inr tok \<and>
        (add_len prompt_token_len token_len :: 'e error + int list) = Inr tlen \<and>
        masked_embedding m tok tlen = Inr x \<and>
        encoder m x tlen g = Inr (h0, g1) \<and>
        (Linear_tensor3 (encoder_proj m) h0 :: 'e error + real tensor3) = Inr h1 \<and>
        flen = map (\<lambda>n. to_int (fl32 (fl32 (fl32 (fl32 (of_int n) /
                          fl32 (input_frame_rate m)) * 22050) / 256))) tlen \<and>
        length_regulator m h1 flen g1 = Inr (h2, g2) \<and>
        (zero_conds (output_size m) flen :: 'e error + real tensor3) = Inr conds0 \<and>
        (if size1 prompt_feat \<noteq> 0
         then fill_conds conds0 prompt_feat (enumerate_from0 prompt_feat_len)
         else (Inr conds0 :: 'e error + real tensor3)) = Inr conds \<and>
        make_pad_mask m flen = Inr pad \<and>
        decoder m (transpose12 h2) (keep_row pad) spks (transpose12 conds) 10 g2 =
          Inr (d, g') \<and>
        feat = (if size1 prompt_feat \<noteq> 0 then drop_frames (size1 prompt_feat) d else d) \<and>
        inference (logging m) token token_len prompt_token prompt_token_len prompt_feat
            prompt_feat_len emb (g, []) =
          Inr (feat, (g', [EncoderCall x tlen, RegulatorCall h1 flen,
                           DecoderCall (transpose12 h2) (keep_row pad) spks
                             (transpose12 conds) 10])))"
  (is "?run \<longleftrightarrow> ?stages")
proof
  assume ?run
  from iffD1[OF inference_Inr this]
  obtain spks tok tlen x h0 g1 h1 h2 g2 conds0 conds pad d where
    len: "length token = 1" and
    s1: "(xvec_projection m emb :: 'e error + real tensor2) = Inr spks" and
    s2: "(concat1 prompt_token token :: 'e error + ids) = Inr tok" and
    s3: "(add_len prompt_token_len token_len :: 'e error + int list) = Inr tlen" and
    s4: "masked_embedding m tok tlen = Inr x" and
    s5: "encoder m x tlen g = Inr (h0, g1)" and
    s6: "(Linear_tensor3 (encoder_proj m) h0 :: 'e error + real tensor3) = Inr h1" and
    s7: "length_regulator m h1 (feat_len_of (input_frame_rate m) tlen) g1 = Inr (h2, g2)" and
    s8: "(zero_conds (output_size m) (feat_len_of (input_frame_rate m) tlen)
           :: 'e error + real tensor3) = Inr conds0" and
    s9: "(if size1 prompt_feat \<noteq> 0
         then fill_conds conds0 prompt_feat (enumerate_from0 prompt_feat_len)
         else (Inr conds0 :: 'e error + real tensor3)) = Inr conds" and
    s10: "make_pad_mask m (feat_len_of (input_frame_rate m) tlen) = Inr pad" and
    s11: "decoder m (transpose12 h2) (keep_row pad) spks (transpose12 conds) 10 g2 =
          Inr (d, g')" and
    s12: "feat = (if size1 prompt_feat \<noteq> 0 then drop_frames (size1 prompt_feat) d else d)"
    by blast
  define flen where "flen = feat_len_of (input_frame_rate m) tlen"
  have fl: "flen = map (\<lambda>n. to_int (fl32 (fl32 (fl32 (fl32 (of_int n) /
                          fl32 (input_frame_rate m)) * 22050) / 256))) tlen"
    by (simp add: flen_def feat_len_of_def)
  have l5: "encoder (logging m) x tlen (g, []) = Inr (h0, (g1, [EncoderCall x tlen]))"
    by (simp add: logging_fields logged_def s5)
  have l7: "length_regulator (logging m) h1 (feat_len_of (input_frame_rate (logging m)) tlen)
              (g1, [EncoderCall x tlen]) =
            Inr (h2, (g2, [EncoderCall x tlen, RegulatorCall h1 flen]))"
    by (simp add: logging_fields logged_def s7 flen_def)
  have l11: "decoder (logging m) (transpose12 h2) (keep_row pad) spks (transpose12 conds) 10
               (g2, [EncoderCall x tlen, RegulatorCall h1 flen]) =
             Inr (d, (g', [EncoderCall x tlen, RegulatorCall h1 flen,
                           DecoderCall (transpose12 h2) (keep_row pad) spks
                             (transpose12 conds) 10]))"
    by (simp add: logging_fields logged_def s11)
  have lg: "inference (logging m) token token_len prompt_token prompt_token_len prompt_feat
            prompt_feat_len emb (g, []) =
          Inr (feat, (g', [EncoderCall x tlen, RegulatorCall h1 flen,
                           DecoderCall (transpose12 h2) (keep_row pad) spks
                             (transpose12 conds) 10]))"
    apply (rule iffD2[OF inference_Inr])
    apply (rule conjI[OF len])
    apply (rule exI[of _ spks], rule exI[of _ tok], rule exI[of _ tlen], rule exI[of _ x],
        rule exI[of _ h0], rule exI[of _ "(g1, [EncoderCall x tlen])"], rule exI[of _ h1],
        rule exI[of _ h2], rule exI[of _ "(g2, [EncoderCall x tlen, RegulatorCall h1 flen])"],
        rule exI[of _ conds0], rule exI[of _ conds], rule exI[of _ pad], rule exI[of _ d])
    apply (simp only: xvec_projection_logging masked_embedding_logging l5 l7 l11)
    apply (insert s9)
    apply (simp add: logging_fields s1 s2 s3 s4 s6 s8 s10 s12 del: fill_conds.simps)
    done
  from len s1 s2 s3 s4 s5 s6 s7 s8 s9 s10 s11 s12 lg fl show ?stages
    unfolding flen_def[symmetric] by blast
next
  assume ?stages
  then have "length token = 1 \<and>
     (\<exists>spks tok tlen x h0 g1 h1 h2 g2 conds0 conds pad d.
        (xvec_projection m emb :: 'e error + real tensor2) = Inr spks \<and>
        (concat1 prompt_token token :: 'e error + ids) = Inr tok \<and>
        (add_len prompt_token_len token_len :: 'e error + int list) = Inr tlen \<and>
        masked_embedding m tok tlen = Inr x \<and>
        encoder m x tlen g = Inr (h0, g1) \<and>
        (Linear_tensor3 (encoder_proj m) h0 :: 'e error + real tensor3) = Inr h1 \<and>
        length_regulator m h1 (feat_len_of (input_frame_rate m) tlen) g1 = Inr (h2, g2) \<and>
        (zero_conds (output_size m) (feat_len_of (input_frame_rate m) tlen)
           :: 'e error + real tensor3) = Inr conds0 \<and>
        (if size1 prompt_feat \<noteq> 0
         then fill_conds conds0 prompt_feat (enumerate_from0 prompt_feat_len)
         else (Inr conds0 :: 'e error + real tensor3)) = Inr conds \<and>
        make_pad_mask m (feat_len_of (input_frame_rate m) tlen) = Inr pad \<and>
        decoder m (transpose12 h2) (keep_row pad) spks (transpose12 conds) 10 g2 =
          Inr (d, g') \<and>
        feat = (if size1 prompt_feat \<noteq> 0 then drop_frames (size1 prompt_feat) d else d))"
    unfolding feat_len_of_def by blast
  then show ?run by (rule iffD2[OF inference_Inr])
qed

subsection \<open>Empty dimensions\<close>

text \<open>
  The sizes are kept where the entries are gone. A tensor of no frames and two channels
  is transposed into two channels of no frames; a linear layer of three inputs raises on
  it; and writing a frame of three channels into no frames of two channels raises, as
  the framework compares the shapes before it copies.
\<close>

lemma transpose12_no_frames:
  "transpose12 (Tensor3 [[]] 0 2) = (Tensor3 [[[], []]] 2 0 :: real tensor3)"
  by (simp add: transpose12_def upt_rec)

lemma Linear_tensor3_no_frames:
  "in_features lin = 3 \<Longrightarrow> Linear_tensor3 lin (Tensor3 [[]] 0 2) = Inl RuntimeError"
  by (simp add: Linear_tensor3_def)

lemma fill_conds_no_frames:
  "fill_conds (Tensor3 [[[0, 0]]] 1 2) (Tensor3 [[[5, 6, 7]]] 1 3) [(0, 0)] =
     Inl RuntimeError"
  by (simp add: expand_to_def slice_to_len_def then_do_def)

subsection \<open>The number of mel frames\<close>

text \<open>Line 124 at 13568 tokens and 50 tokens per second: the quotient rounds to
  \<open>271.35998...\<close>, the product to \<open>5983487.5\<close>, and the result is 23372 frames, where the
  exact quotient would give 23373. At 3 tokens it is 5 frames.\<close>

lemma fl32_50: "fl32 50 = 50"
  using fl32_at[of 5 50] by (simp add: powr_minus round_even_def)

lemma fl32_13568: "fl32 13568 = 13568"
  using fl32_at[of 13 13568] by (simp add: powr_minus round_even_def)

lemma feat_step1: "fl32 (13568 / 50) = 8891924 / 32768"
  using fl32_at[of 8 "13568 / 50"] by (simp add: powr_minus round_even_def)

lemma feat_step2: "fl32 (8891924 / 32768 * 22050) = 11966975 / 2"
  using fl32_at[of 22 "8891924 / 32768 * 22050"] by (simp add: powr_minus round_even_def)

lemma feat_step3: "fl32 (11966975 / 2 / 256) = 11966975 / 512"
  using fl32_at[of 14 "11966975 / 2 / 256"] by (simp add: powr_minus round_even_def)

lemma feat_len_13568: "feat_len_of 50 [13568] = [23372]"
proof -
  have c: "fl32 (fl32 (fl32 (fl32 13568 / fl32 50) * 22050) / 256) = 11966975 / 512"
    by (simp only: fl32_13568 fl32_50 feat_step1 feat_step2 feat_step3)
  show ?thesis by (simp add: feat_len_of_def to_int_def c)
qed

lemma fl32_3: "fl32 3 = 3"
  using fl32_at[of 1 3] by (simp add: powr_minus round_even_def)

lemma feat_small1: "fl32 (3 / 50) = 16106127 / 268435456"
  using fl32_at[of "- 5" "3 / 50"] by (simp add: powr_minus round_even_def)

lemma feat_small2: "fl32 (16106127 / 268435456 * 22050) = 1323"
  using fl32_at[of 10 "16106127 / 268435456 * 22050"] by (simp add: powr_minus round_even_def)

lemma feat_small3: "fl32 (1323 / 256) = 1323 / 256"
  using fl32_at[of 2 "1323 / 256"] by (simp add: powr_minus round_even_def)

lemma feat_len_3: "feat_len_of 50 [3] = [5]"
proof -
  have c: "fl32 (fl32 (fl32 (fl32 3 / fl32 50) * 22050) / 256) = 1323 / 256"
    by (simp only: fl32_3 fl32_50 feat_small1 feat_small2 feat_small3)
  show ?thesis by (simp add: feat_len_of_def to_int_def c)
qed

subsection \<open>The example flow model\<close>

lemma sqrt25: "sqrt 25 = 5"
  using real_sqrt_abs[of 5] by simp

lemma upt3: "[0..<2] = [0, 1]" "[0..<3] = [0, 1, 2]" "[0..<5] = [0, 1, 2, 3, 4]"
  by (simp_all add: upt_rec)

lemma toy_spks:
  "xvec_projection (toy_flow_with dec) (Tensor2 [[3, 4]] 2) = Inr (Tensor2 [[3 / 5, 4 / 5]] 2)"
  by (simp add: xvec_projection_def Linear_tensor2_def normalize2_def Linear_rows_def
      normalize_def l2_norm_def Linear_forward_def dot_def toy_flow_with_def sqrt25
      then_do_def)

lemma toy_pad3:
  "make_pad_mask (toy_flow_with dec) [3] = Inr (Tensor2 [[False, False, False]] 3)"
  by (simp add: toy_flow_with_def toy_pad_mask_def upt3)

lemma toy_pad5:
  "make_pad_mask (toy_flow_with dec) [5] =
     Inr (Tensor2 [[False, False, False, False, False]] 5)"
  by (simp add: toy_flow_with_def toy_pad_mask_def upt3)

lemma toy_embed:
  "embed_clamped (input_embedding (toy_flow_with dec)) [[0, 2, - 1]] =
     Inr [[[1, 0], [1, 1], [1, 0]]]"
  by (simp add: embed_clamped_def clamp_min0_def Embedding_def toy_flow_with_def)

lemma toy_masked:
  "masked_embedding (toy_flow_with dec) [[0, 2, - 1]] [3] =
     Inr (Tensor3 [[[1, 0], [1, 1], [1, 0]]] 3 2)"
proof -
  have i: "input_size (toy_flow_with dec) = 2" by (simp add: toy_flow_with_def)
  show ?thesis
    by (simp add: masked_embedding_def toy_pad3 toy_embed i call_module_def then_do_def
        keep_column_def mul_tensor3_def size_broadcast_def ids_cols_def mul3_def mul2_def
        mul1_def mul0_def broadcast_def)
qed

lemma toy_feat_len: "feat_len_of (input_frame_rate (toy_flow_with dec)) [3] = [5]"
proof -
  have "input_frame_rate (toy_flow_with dec) = 50" by (simp add: toy_flow_with_def)
  then show ?thesis by (simp only: feat_len_3)
qed

lemma toy_proj:
  "Linear_tensor3 (encoder_proj (toy_flow_with dec)) (Tensor3 [[[1, 0], [1, 1], [1, 0]]] 3 2) =
     Inr (Tensor3 [[[1, 0], [1, 1], [1, 0]]] 3 2)"
  by (simp add: Linear_tensor3_def on_rows_def Linear_forward_def dot_def toy_flow_with_def
      then_do_def)

lemma toy_regulated:
  "length_regulator (toy_flow_with dec) (Tensor3 [[[1, 0], [1, 1], [1, 0]]] 3 2) [5] g =
     Inr (Tensor3 [[[1, 0], [1, 0], [1, 0], [1, 0], [1, 0]]] 5 2, Suc g)"
  by (simp add: toy_flow_with_def toy_regulator_def eval_nat_numeral)

lemma toy_conds:
  "zero_conds (output_size (toy_flow_with dec)) [5] =
     Inr (Tensor3 [[[0, 0], [0, 0], [0, 0], [0, 0], [0, 0]]] 5 2)"
  by (simp add: zero_conds_def toy_flow_with_def eval_nat_numeral)

lemma toy_fill:
  "fill_conds (Tensor3 [[[0, 0], [0, 0], [0, 0], [0, 0], [0, 0]]] 5 2)
     (Tensor3 [[[5, 6]]] (Suc 0) 2) (enumerate_from0 [1]) =
     Inr (Tensor3 [[[5, 6], [0, 0], [0, 0], [0, 0], [0, 0]]] 5 2)"
  by (simp add: enumerate_from0_def expand_to_def slice_to_len_def then_do_def Let_def)

lemma toy_transposed:
  "transpose12 (Tensor3 [[[5, 6], [0, 0], [0, 0], [0, 0], [0, 0]]] 5 2) =
     Tensor3 [[[5, 0, 0, 0, 0], [6, 0, 0, 0, 0]]] 2 5"
  "transpose12 (Tensor3 [[[1, 0], [1, 0], [1, 0], [1, 0], [1, 0]]] 5 2) =
     Tensor3 [[[1, 1, 1, 1, 1], [0, 0, 0, 0, 0]]] 2 5"
  by (simp_all add: transpose12_def upt3)

lemma toy_run_with:
  "inference (toy_flow_with dec) [[2, - 1]] [2] [[0]] [1] (Tensor3 [[[5, 6]]] 1 2) [1]
     (Tensor2 [[3, 4]] 2) 0 =
   then_do (call_module
              (dec (Tensor3 [[[1, 1, 1, 1, 1], [0, 0, 0, 0, 0]]] 2 5)
                 (Tensor3 [[[1, 1, 1, 1, 1]]] 1 5) (Tensor2 [[3 / 5, 4 / 5]] 2)
                 (Tensor3 [[[5, 0, 0, 0, 0], [6, 0, 0, 0, 0]]] 2 5) 10 2))
     (\<lambda>(d, g3). Inr (drop_frames 1 d, g3))"
proof -
  have a: "concat1 [[0]] [[2, - 1]] = Inr [[0, 2, - 1]]" by (simp add: concat1_def)
  have b: "add_len [1] [2] = Inr [3]" by (simp add: add_len_def broadcast_def)
  have c: "encoder (toy_flow_with dec) = (\<lambda>x token_len g. Inr (x, Suc g))"
    "decoder (toy_flow_with dec) = dec"
    by (simp_all add: toy_flow_with_def)
  have k: "keep_row (Tensor2 [[False, False, False, False, False]] 5) =
             Tensor3 [[[1, 1, 1, 1, 1]]] 1 5"
    by (simp add: keep_row_def)
  have two: "Suc (Suc 0) = 2" by simp
  show ?thesis
    unfolding inference_def
    by (simp add: toy_spks a b toy_masked c toy_feat_len toy_proj toy_regulated toy_conds
        toy_fill toy_pad5 toy_transposed k two then_do_def call_module_def
        del: fill_conds.simps)
qed

lemma toy_flow_run:
  "inference toy_flow [[2, - 1]] [2] [[0]] [1] (Tensor3 [[[5, 6]]] 1 2) [1]
     (Tensor2 [[3, 4]] 2) 0 =
     Inr (Tensor3 [[[1, 1, 1, 1], [0, 0, 0, 0]]] 2 4, 3)"
  by (simp only: toy_flow_def toy_run_with)
     (simp add: toy_decoder_def drop_frames_def py_slice_from_def call_module_def
        then_do_def)

lemma wide_flow_run:
  "inference wide_flow [[2, - 1]] [2] [[0]] [1] (Tensor3 [[[5, 6]]] 1 2) [1]
     (Tensor2 [[3, 4]] 2) 0 =
     Inr (Tensor3 [[[1, 1, 1, 1], [0, 0, 0, 0], [0, 0, 0, 0]]] 3 4, 3)"
proof -
  have r: "replicate 4 (0 :: real) = [0, 0, 0, 0]" by (simp add: eval_nat_numeral)
  show ?thesis
    by (simp only: wide_flow_def toy_run_with)
       (simp add: wide_decoder_def drop_frames_def py_slice_from_def call_module_def
          then_do_def r)
qed

text \<open>A run on a token whose length is given as 0: the encoding, the conditions and the
  mask have no frames and keep their two channels, and the decoder is called on two
  channels of no frames.\<close>

lemma feat_len_0: "feat_len_of r [0] = [0]"
  by (simp add: feat_len_of_def fl32_def to_int_def)

lemma inference_no_frames:
  "inference toy_flow [[2]] [0] [[]] [0] (Tensor3 [[]] 0 2) [0] (Tensor2 [[3, 4]] 2) 0 =
     Inr (Tensor3 [[[], []]] 2 0, 3)"
proof -
  have a: "concat1 [[]] [[2]] = Inr [[2]]" by (simp add: concat1_def)
  have b: "add_len [0] [0] = Inr [0]" by (simp add: add_len_def broadcast_def)
  have p: "make_pad_mask (toy_flow_with toy_decoder) [0] = Inr (Tensor2 [[]] 0)"
    by (simp add: toy_flow_with_def toy_pad_mask_def)
  have i: "input_size (toy_flow_with toy_decoder) = 2" by (simp add: toy_flow_with_def)
  have e: "embed_clamped (input_embedding (toy_flow_with toy_decoder)) [[2]] = Inr [[[1, 1]]]"
    by (simp add: embed_clamped_def clamp_min0_def Embedding_def toy_flow_with_def)
  have m: "masked_embedding (toy_flow_with toy_decoder) [[2]] [0] = Inr (Tensor3 [[]] 0 2)"
    by (simp add: masked_embedding_def p e i call_module_def then_do_def keep_column_def
        mul_tensor3_def size_broadcast_def ids_cols_def mul3_def mul2_def broadcast_def)
  have l: "Linear_tensor3 (encoder_proj (toy_flow_with toy_decoder)) (Tensor3 [[]] 0 2) =
             Inr (Tensor3 [[]] 0 2)"
    by (simp add: Linear_tensor3_def on_rows_def toy_flow_with_def then_do_def)
  have r: "length_regulator (toy_flow_with toy_decoder) (Tensor3 [[]] 0 2) [0] g =
             Inr (Tensor3 [[]] 0 2, Suc g)" for g
    by (simp add: toy_flow_with_def toy_regulator_def)
  have z: "zero_conds (output_size (toy_flow_with toy_decoder)) [0] = Inr (Tensor3 [[]] 0 2)"
    by (simp add: zero_conds_def toy_flow_with_def)
  have c: "encoder (toy_flow_with toy_decoder) = (\<lambda>x token_len g. Inr (x, Suc g))"
    "decoder (toy_flow_with toy_decoder) = toy_decoder"
    by (simp_all add: toy_flow_with_def)
  have t: "transpose12 (Tensor3 [[]] 0 2) = (Tensor3 [[[], []]] 2 0 :: real tensor3)"
    by (rule transpose12_no_frames)
  have two: "Suc (Suc 0) = 2" by simp
  show ?thesis
    unfolding inference_def toy_flow_def
    by (simp add: toy_spks a b m c l feat_len_0 r z p t keep_row_def toy_decoder_def two
        then_do_def call_module_def)
qed

subsection \<open>The speaker embedding and the cut at the prompt\<close>

lemma sum_list_div_sq:
  "(\<Sum>y\<leftarrow>r. (y / c)\<^sup>2) = (\<Sum>y\<leftarrow>r. y\<^sup>2) / c\<^sup>2" for c :: real
  by (induction r) (simp_all add: power_divide add_divide_distrib)

lemma l2_norm_normalized:
  assumes "1 / 10 ^ 12 \<le> l2_norm r"
  shows "l2_norm (map (\<lambda>y. y / max (l2_norm r) (1 / 10 ^ 12)) r) = 1"
proof -
  let ?c = "l2_norm r"
  have pos: "0 < ?c" using assms by (smt (verit) divide_pos_pos zero_less_power zero_less_one)
  have mx: "max ?c (1 / 10 ^ 12) = ?c" using assms by simp
  have "l2_norm (map (\<lambda>y. y / ?c) r) = sqrt ((\<Sum>y\<leftarrow>r. y\<^sup>2) / ?c\<^sup>2)"
    by (simp add: l2_norm_def comp_def sum_list_div_sq)
  also have "\<dots> = sqrt (\<Sum>y\<leftarrow>r. y\<^sup>2) / ?c"
    using pos by (simp add: real_sqrt_divide)
  also have "\<dots> = 1" using pos by (simp add: l2_norm_def)
  finally show ?thesis by (simp only: mx)
qed

lemma normalize_unit:
  assumes "i < length x" "1 / 10 ^ 12 \<le> l2_norm (x ! i)"
  shows "l2_norm (normalize x ! i) = 1"
  using assms l2_norm_normalized[of "x ! i"] by (simp add: normalize_def)

lemma Linear_rows_shape:
  assumes "Linear_ok lin D out b" "\<forall>r\<in>set x. length r = D"
  shows "\<exists>y. (Linear_rows lin x :: 'e error + mat) = Inr y \<and> length y = length x \<and>
           (\<forall>r\<in>set y. length r = out)"
proof -
  define h where "h v = projr (Linear_forward lin v :: 'e error + vec)" for v
  have fh: "\<And>v. length v = D \<Longrightarrow>
              (Linear_forward lin v :: 'e error + vec) = Inr (h v) \<and> length (h v) = out"
    using Linear_forward_shape[OF assms(1)] unfolding h_def by (metis sum.sel(2))
  have "(collect (map (Linear_forward lin) x) :: 'e error + mat) = Inr (map h x)"
    using assms(2) fh by (intro collect_map_Inr) auto
  moreover have "\<forall>r\<in>set (map h x). length r = out" using assms(2) fh by auto
  ultimately show ?thesis unfolding Linear_rows_def by auto
qed

lemma fill_conds_sizes:
  assumes "(fill_conds conds pf ijs :: 'e error + real tensor3) = Inr conds'"
  shows "size1 conds' = size1 conds \<and> size2 conds' = size2 conds"
  using assms
proof (induction ijs arbitrary: conds)
  case Nil
  then show ?case by simp
next
  case (Cons ij ijs)
  obtain i j where ij: "ij = (i, j)" by (cases ij)
  from Cons.prems obtain new where
    "(fill_conds
        (Tensor3 ((elems3 conds)[i := new @ drop (slice_to_len j (size1 conds))
                                              (elems3 conds ! i)])
           (size1 conds) (size2 conds)) pf ijs :: 'e error + real tensor3) = Inr conds'"
    unfolding ij fill_conds.simps Let_def
    by (auto simp: then_do_Inr split: if_splits)
  from Cons.IH[OF this] show ?case by simp
qed

lemma zero_conds_sizes:
  assumes "(zero_conds c fl :: 'e error + real tensor3) = Inr conds"
  shows "size2 conds = c"
  using assms by (auto simp: zero_conds_def split: if_splits)

lemma py_slice_from_nat: "py_slice_from (int n) xs = drop n xs"
  by (cases "n \<le> length xs") (simp_all add: py_slice_from_def Let_def min_def)

text \<open>
  Claim C7, as amended. Let \<open>inference\<close> return \<open>feat\<close>, let the affine layer of the speaker
  embedding map the dimension of the speaker embedding to \<open>output_size\<close> as the constructor
  builds it, and let the rows of the speaker embedding have that dimension. Then the
  decoder was called once, last of the three modules, with \<open>spks\<close>, the affine layer
  applied to the normalised speaker embedding: every row of the embedding whose Euclidean
  norm is at least \<open>1e-12\<close> is normalised to norm 1, and every row of \<open>spks\<close> has
  \<open>output_size\<close> entries. The conditions passed to the decoder have \<open>output_size\<close> channels.
  \<open>feat\<close> is the decoder's output \<open>d\<close> with the first \<open>prompt_feat.shape[1]\<close> frames of every
  channel cut off (nothing is cut when the prompt is empty). It has the channels of \<open>d\<close>:
  as many as the decoder returns, which the code compares with nothing.
\<close>

theorem inference_speaker_and_crop:
  fixes m :: "('e, 'g) MaskedDiffWithXvec"
  assumes run: "inference m token token_len prompt_token prompt_token_len prompt_feat
                  prompt_feat_len emb g = Inr (feat, g')"
    and lin: "Linear_ok (spk_embed_affine_layer m) (cols emb) (output_size m) True"
    and dim: "\<forall>r\<in>set (elems2 emb). length r = cols emb"
  shows "\<exists>spks x tlen h1 flen mu pad cond d.
           (Linear_tensor2 (spk_embed_affine_layer m) (normalize2 emb)
              :: 'e error + real tensor2) = Inr spks \<and>
           length (elems2 spks) = length (elems2 emb) \<and> cols spks = output_size m \<and>
           (\<forall>r\<in>set (elems2 spks). length r = output_size m) \<and>
           (\<forall>i<length (elems2 emb). 1 / 10 ^ 12 \<le> l2_norm (elems2 emb ! i) \<longrightarrow>
              l2_norm (elems2 (normalize2 emb) ! i) = 1) \<and>
           size1 cond = output_size m \<and>
           (\<forall>b\<in>set (elems3 cond). length b = output_size m) \<and>
           inference (logging m) token token_len prompt_token prompt_token_len prompt_feat
               prompt_feat_len emb (g, []) =
             Inr (feat, (g', [EncoderCall x tlen, RegulatorCall h1 flen,
                              DecoderCall mu pad spks cond 10])) \<and>
           (\<exists>g2. decoder m mu pad spks cond 10 g2 = Inr (d, g')) \<and>
           feat = (if size1 prompt_feat \<noteq> 0 then drop_frames (size1 prompt_feat) d else d) \<and>
           length (elems3 feat) = length (elems3 d) \<and>
           size1 feat = size1 d \<and> size2 feat = size2 d - size1 prompt_feat \<and>
           (\<forall>b<length (elems3 d).
              length (elems3 feat ! b) = length (elems3 d ! b) \<and>
              (\<forall>c<length (elems3 d ! b).
                 elems3 feat ! b ! c = drop (size1 prompt_feat) (elems3 d ! b ! c)))"
proof -
  from iffD1[OF inference_logged run]
  obtain spks tlen x h1 flen h2 g2 conds0 conds pad d where
    sp: "(xvec_projection m emb :: 'e error + real tensor2) = Inr spks"
    and zc: "(zero_conds (output_size m) flen :: 'e error + real tensor3) = Inr conds0"
    and fc: "(if size1 prompt_feat \<noteq> 0
         then fill_conds conds0 prompt_feat (enumerate_from0 prompt_feat_len)
         else (Inr conds0 :: 'e error + real tensor3)) = Inr conds"
    and de: "decoder m (transpose12 h2) (keep_row pad) spks (transpose12 conds) 10 g2 =
               Inr (d, g')"
    and fe: "feat = (if size1 prompt_feat \<noteq> 0 then drop_frames (size1 prompt_feat) d else d)"
    and lg: "inference (logging m) token token_len prompt_token prompt_token_len prompt_feat
            prompt_feat_len emb (g, []) =
          Inr (feat, (g', [EncoderCall x tlen, RegulatorCall h1 flen,
                           DecoderCall (transpose12 h2) (keep_row pad) spks
                             (transpose12 conds) 10]))"
    by blast
  have lt: "(Linear_tensor2 (spk_embed_affine_layer m) (normalize2 emb)
              :: 'e error + real tensor2) = Inr spks"
    using sp by (simp add: xvec_projection_def)
  have nd: "\<forall>r\<in>set (normalize (elems2 emb)). length r = cols emb"
    using dim by (auto simp: normalize_def)
  from Linear_rows_shape[OF lin nd] obtain y where
    y: "(Linear_rows (spk_embed_affine_layer m) (normalize (elems2 emb)) :: 'e error + mat) =
          Inr y"
      "length y = length (normalize (elems2 emb))" "\<forall>r\<in>set y. length r = output_size m"
    by blast
  have of: "out_features (spk_embed_affine_layer m) = output_size m"
    using lin by (simp add: Linear_ok_def)
  from lt y(1) have spy: "spks = Tensor2 y (output_size m)"
    by (auto simp: Linear_tensor2_def normalize2_def then_do_def of split: if_splits)
  have sh: "length (elems2 spks) = length (elems2 emb)" "cols spks = output_size m"
    "\<forall>r\<in>set (elems2 spks). length r = output_size m"
    using y spy by (simp_all add: normalize_def)
  have un: "\<forall>i<length (elems2 emb). 1 / 10 ^ 12 \<le> l2_norm (elems2 emb ! i) \<longrightarrow>
              l2_norm (elems2 (normalize2 emb) ! i) = 1"
    using normalize_unit by (simp add: normalize2_def)
  have s0: "size2 conds0 = output_size m" by (rule zero_conds_sizes[OF zc])
  have "size2 conds = size2 conds0"
  proof (cases "size1 prompt_feat = 0")
    case True
    with fc show ?thesis by simp
  next
    case False
    with fc have "(fill_conds conds0 prompt_feat (enumerate_from0 prompt_feat_len)
                     :: 'e error + real tensor3) = Inr conds" by simp
    from fill_conds_sizes[OF this] show ?thesis by simp
  qed
  with s0 have cs: "size1 (transpose12 conds) = output_size m"
    "\<forall>b\<in>set (elems3 (transpose12 conds)). length b = output_size m"
    by (simp_all add: transpose12_def)
  have f1: "length (elems3 feat) = length (elems3 d)" "size1 feat = size1 d"
    "size2 feat = size2 d - size1 prompt_feat"
    using fe by (simp_all add: drop_frames_def)
  have f2: "\<forall>b<length (elems3 d).
              length (elems3 feat ! b) = length (elems3 d ! b) \<and>
              (\<forall>c<length (elems3 d ! b).
                 elems3 feat ! b ! c = drop (size1 prompt_feat) (elems3 d ! b ! c))"
    using fe by (simp add: drop_frames_def py_slice_from_nat)
  from de have de': "\<exists>g2. decoder m (transpose12 h2) (keep_row pad) spks (transpose12 conds)
                        10 g2 = Inr (d, g')" by blast
  from lt sh un cs lg de' fe f1 f2 show ?thesis by blast
qed

lemma toy_spk_layer:
  "Linear_ok (spk_embed_affine_layer toy_flow) (cols (Tensor2 [[3, 4]] 2))
     (output_size toy_flow) True"
  by (simp add: Linear_ok_def toy_flow_def toy_flow_with_def)

text \<open>The theorem at the example model, with a prompt of one token and one frame.\<close>

theorem inference_speaker_and_crop_witness:
  "\<exists>spks x tlen h1 flen mu pad cond d.
     (Linear_tensor2 (spk_embed_affine_layer toy_flow) (normalize2 (Tensor2 [[3, 4]] 2))
        :: unit error + real tensor2) = Inr spks \<and>
     length (elems2 spks) = length (elems2 (Tensor2 [[3, 4 :: real]] 2)) \<and>
     cols spks = output_size toy_flow \<and>
     (\<forall>r\<in>set (elems2 spks). length r = output_size toy_flow) \<and>
     (\<forall>i<length (elems2 (Tensor2 [[3, 4 :: real]] 2)).
        1 / 10 ^ 12 \<le> l2_norm (elems2 (Tensor2 [[3, 4]] 2) ! i) \<longrightarrow>
        l2_norm (elems2 (normalize2 (Tensor2 [[3, 4]] 2)) ! i) = 1) \<and>
     size1 cond = output_size toy_flow \<and>
     (\<forall>b\<in>set (elems3 cond). length b = output_size toy_flow) \<and>
     inference (logging toy_flow) [[2, - 1]] [2] [[0]] [1] (Tensor3 [[[5, 6]]] 1 2) [1]
         (Tensor2 [[3, 4]] 2) (0, []) =
       Inr (Tensor3 [[[1, 1, 1, 1], [0, 0, 0, 0]]] 2 4,
            (3, [EncoderCall x tlen, RegulatorCall h1 flen, DecoderCall mu pad spks cond 10])) \<and>
     (\<exists>g2. decoder toy_flow mu pad spks cond 10 g2 = Inr (d, 3)) \<and>
     Tensor3 [[[1, 1, 1, 1], [0, 0, 0, 0]]] 2 4 =
       (if size1 (Tensor3 [[[5, 6 :: real]]] 1 2) \<noteq> 0
        then drop_frames (size1 (Tensor3 [[[5, 6 :: real]]] 1 2)) d else d) \<and>
     length (elems3 (Tensor3 [[[1, 1, 1, 1], [0, 0, 0, 0 :: real]]] 2 4)) = length (elems3 d) \<and>
     size1 (Tensor3 [[[1, 1, 1, 1], [0, 0, 0, 0 :: real]]] 2 4) = size1 d \<and>
     size2 (Tensor3 [[[1, 1, 1, 1], [0, 0, 0, 0 :: real]]] 2 4) =
       size2 d - size1 (Tensor3 [[[5, 6 :: real]]] 1 2) \<and>
     (\<forall>b<length (elems3 d).
        length (elems3 (Tensor3 [[[1, 1, 1, 1], [0, 0, 0, 0 :: real]]] 2 4) ! b) =
          length (elems3 d ! b) \<and>
        (\<forall>c<length (elems3 d ! b).
           elems3 (Tensor3 [[[1, 1, 1, 1], [0, 0, 0, 0]]] 2 4) ! b ! c =
             drop (size1 (Tensor3 [[[5, 6 :: real]]] 1 2)) (elems3 d ! b ! c)))"
proof -
  have dim: "\<forall>r\<in>set (elems2 (Tensor2 [[3, 4 :: real]] 2)).
               length r = cols (Tensor2 [[3, 4 :: real]] 2)" by simp
  show ?thesis
    by (rule inference_speaker_and_crop[OF toy_flow_run toy_spk_layer dim])
qed

text \<open>
  Claim C7 as stated fails where it says that the returned tensor has \<open>output_size\<close>
  channels: with \<open>output_size = 2\<close> and a decoder of three output channels, \<open>inference\<close>
  returns a tensor of three channels.
\<close>

theorem inference_channels_counterexample:
  "inference wide_flow [[2, - 1]] [2] [[0]] [1] (Tensor3 [[[5, 6]]] 1 2) [1]
     (Tensor2 [[3, 4]] 2) 0 =
     Inr (Tensor3 [[[1, 1, 1, 1], [0, 0, 0, 0], [0, 0, 0, 0]]] 3 4, 3) \<and>
   output_size wide_flow = 2 \<and>
   size1 (Tensor3 [[[1, 1, 1, 1], [0, 0, 0, 0], [0, 0, 0, 0 :: real]]] 3 4) = 3 \<and>
   length (elems3 (Tensor3 [[[1, 1, 1, 1], [0, 0, 0, 0], [0, 0, 0, 0 :: real]]] 3 4) ! 0) = 3"
proof -
  have o: "output_size wide_flow = 2" by (simp add: wide_flow_def toy_flow_with_def)
  show ?thesis using wide_flow_run o by simp
qed

subsection \<open>Clamped token ids\<close>

lemma clamp_min0_idem: "clamp_min0 (clamp_min0 t) = clamp_min0 t"
  by (simp add: clamp_min0_def comp_def)

lemma ids_cols_clamp: "ids_cols (clamp_min0 t) = ids_cols t"
  by (cases t) (simp_all add: ids_cols_def clamp_min0_def)

lemma embed_clamped_clamp: "embed_clamped table (clamp_min0 t) = embed_clamped table t"
  by (simp add: embed_clamped_def clamp_min0_idem)

lemma masked_embedding_clamp:
  "masked_embedding m (clamp_min0 t) token_len = masked_embedding m t token_len"
  by (simp add: masked_embedding_def embed_clamped_clamp ids_cols_clamp)

lemma concat1_clamp:
  "concat1 (clamp_min0 a) (clamp_min0 b) =
     (case concat1 a b of Inl e \<Rightarrow> Inl e | Inr t \<Rightarrow> Inr (clamp_min0 t))"
proof -
  have "map2 (@) (map (map (max 0)) a) (map (map (max (0::int))) b) =
          map (map (max 0)) (map2 (@) a b)"
    by (induction a arbitrary: b) (auto simp: zip_Cons1 split: list.splits)
  then show ?thesis by (simp add: concat1_def clamp_min0_def)
qed

lemma inference_clamp:
  "inference m (clamp_min0 token) token_len (clamp_min0 prompt_token) prompt_token_len
     prompt_feat prompt_feat_len emb g =
   inference m token token_len prompt_token prompt_token_len prompt_feat prompt_feat_len
     emb g"
proof -
  have l: "length (clamp_min0 token) = length token" by (simp add: clamp_min0_def)
  show ?thesis
    unfolding inference_def l concat1_clamp
    by (cases "concat1 prompt_token token")
       (simp_all add: then_do_def masked_embedding_clamp split: sum.splits)
qed

lemma forward_clamp:
  "forward m (batch\<lparr>speech_token := clamp_min0 token\<rparr>) g =
   forward m (batch\<lparr>speech_token := token\<rparr>) g"
  by (simp add: forward_def masked_embedding_clamp)

lemma embed_clamped_in_bounds:
  assumes "length table = V" "0 < V" "\<forall>row\<in>set token. \<forall>t\<in>set row. t < int V"
  shows "embed_clamped table token =
           Inr (map (map (\<lambda>t. table ! (if t < 0 then 0 else nat t))) token)"
proof -
  have one: "\<And>t. t < int V \<Longrightarrow>
               Embedding table (max 0 t) = Inr (table ! (if t < 0 then 0 else nat t))"
    using assms(1,2) by (auto simp: Embedding_def max_def)
  have row: "\<And>row. row \<in> set token \<Longrightarrow>
               collect (map (Embedding table) (map (max 0) row)) =
                 Inr (map (\<lambda>t. table ! (if t < 0 then 0 else nat t)) row)"
  proof -
    fix row assume "row \<in> set token"
    with assms(3) have "\<forall>t\<in>set row. Embedding table (max 0 t) =
                           Inr (table ! (if t < 0 then 0 else nat t))"
      using one by blast
    then have "collect (map (\<lambda>t. Embedding table (max 0 t)) row) =
                 Inr (map (\<lambda>t. table ! (if t < 0 then 0 else nat t)) row)"
      by (rule collect_map_Inr)
    then show "collect (map (Embedding table) (map (max 0) row)) =
                 Inr (map (\<lambda>t. table ! (if t < 0 then 0 else nat t)) row)"
      by (simp add: comp_def)
  qed
  have "collect (map (\<lambda>row. collect (map (Embedding table) (map (max 0) row))) token) =
          Inr (map (map (\<lambda>t. table ! (if t < 0 then 0 else nat t))) token)"
    by (rule collect_map_Inr) (use row in blast)
  then show ?thesis by (simp add: embed_clamped_def clamp_min0_def comp_def)
qed

lemma masked_embedding_no_index:
  assumes "length (input_embedding m) = V" "0 < V"
    "\<forall>row\<in>set token. \<forall>t\<in>set row. t < int V"
  shows "masked_embedding m token token_len \<noteq> Inl IndexError"
  unfolding masked_embedding_def embed_clamped_in_bounds[OF assms]
  by (intro then_do_not call_module_not mul_tensor3_not) simp_all

text \<open>
  Claim C10. Let the embedding table have \<open>vocab_size > 0\<close> rows and let every id of
  \<open>token\<close> and of \<open>prompt_token\<close> be below \<open>vocab_size\<close>; ids may be negative. The lookup of
  lines 74 and 119 then succeeds on \<open>token\<close> (as in \<open>forward\<close>) and on the prompt followed by
  \<open>token\<close> (as in \<open>inference\<close>): it returns row 0 of the table for a negative id and the row
  of the id otherwise, and the stage that computes the masked embedding never raises
  IndexError. Both functions return the same as on the ids with every negative id
  replaced by 0.
\<close>

theorem clamped_lookup_in_bounds:
  fixes m :: "('e, 'g) MaskedDiffWithXvec"
  assumes table: "length (input_embedding m) = vocab_size m" "0 < vocab_size m"
    and ids: "\<forall>row\<in>set token. \<forall>t\<in>set row. t < int (vocab_size m)"
    and pids: "\<forall>row\<in>set prompt_token. \<forall>t\<in>set row. t < int (vocab_size m)"
  shows "(embed_clamped (input_embedding m) token :: 'e error + ten3) =
           Inr (map (map (\<lambda>t. input_embedding m ! (if t < 0 then 0 else nat t))) token) \<and>
         masked_embedding m token token_len \<noteq> Inl IndexError \<and>
         forward m (batch\<lparr>speech_token := token\<rparr>) g =
           forward m (batch\<lparr>speech_token := clamp_min0 token\<rparr>) g \<and>
         (embed_clamped (input_embedding m) (map2 (@) prompt_token token)
            :: 'e error + ten3) =
           Inr (map (map (\<lambda>t. input_embedding m ! (if t < 0 then 0 else nat t)))
                  (map2 (@) prompt_token token)) \<and>
         masked_embedding m (map2 (@) prompt_token token) token_len' \<noteq> Inl IndexError \<and>
         inference m token token_len prompt_token prompt_token_len prompt_feat
             prompt_feat_len emb g' =
           inference m (clamp_min0 token) token_len (clamp_min0 prompt_token)
             prompt_token_len prompt_feat prompt_feat_len emb g'"
proof -
  have cat: "\<forall>row\<in>set (map2 (@) prompt_token token). \<forall>t\<in>set row. t < int (vocab_size m)"
  proof (intro ballI)
    fix row t assume "row \<in> set (map2 (@) prompt_token token)" "t \<in> set row"
    then obtain p q where "(p, q) \<in> set (zip prompt_token token)" "row = p @ q" by auto
    then have "p \<in> set prompt_token" "q \<in> set token" "row = p @ q"
      by (auto dest: set_zip_leftD set_zip_rightD)
    with ids pids \<open>t \<in> set row\<close> show "t < int (vocab_size m)" by auto
  qed
  show ?thesis
    using embed_clamped_in_bounds[OF table ids] embed_clamped_in_bounds[OF table cat]
      masked_embedding_no_index[OF table ids] masked_embedding_no_index[OF table cat]
    by (simp add: forward_clamp inference_clamp)
qed

subsection \<open>The order of the stages\<close>



text \<open>Claim C9 at the example model: a batch of two utterances raises AssertionError, a
  batch of one does not.\<close>

theorem inference_assertion_witness:
  "inference toy_flow [[2], [1]] [1, 1] [[0]] [1] (Tensor3 [[[5, 6]]] 1 2) [1]
     (Tensor2 [[3, 4]] 2) 0 = Inl AssertionError \<and>
   inference toy_flow [[2, - 1]] [2] [[0]] [1] (Tensor3 [[[5, 6]]] 1 2) [1]
     (Tensor2 [[3, 4]] 2) 0 \<noteq> Inl AssertionError"
  using inference_assertion[of toy_flow "[[2], [1]]" "[1, 1]" "[[0]]" "[1]"
      "Tensor3 [[[5, 6]]] 1 2" "[1]" "Tensor2 [[3, 4]] 2" 0]
    inference_assertion[of toy_flow "[[2, - 1]]" "[2]" "[[0]]" "[1]"
      "Tensor3 [[[5, 6]]] 1 2" "[1]" "Tensor2 [[3, 4]] 2" 0]
  by simp

text \<open>Claim C10 at the example model, with the negative id -1.\<close>

theorem clamped_lookup_in_bounds_witness:
  "(embed_clamped (input_embedding toy_flow) [[2, - 1]] :: unit error + ten3) =
     Inr (map (map (\<lambda>t. input_embedding toy_flow ! (if t < 0 then 0 else nat t)))
            [[2, - 1]]) \<and>
   masked_embedding toy_flow [[2, - 1]] [2] \<noteq> Inl IndexError \<and>
   forward toy_flow (toy_batch\<lparr>speech_token := [[2, - 1]]\<rparr>) 0 =
     forward toy_flow (toy_batch\<lparr>speech_token := clamp_min0 [[2, - 1]]\<rparr>) 0 \<and>
   (embed_clamped (input_embedding toy_flow) (map2 (@) [[0]] [[2, - 1]])
      :: unit error + ten3) =
     Inr (map (map (\<lambda>t. input_embedding toy_flow ! (if t < 0 then 0 else nat t)))
            (map2 (@) [[0]] [[2, - 1]])) \<and>
   masked_embedding toy_flow (map2 (@) [[0]] [[2, - 1]]) [3] \<noteq> Inl IndexError \<and>
   inference toy_flow [[2, - 1]] [2] [[0]] [1] (Tensor3 [[[5, 6]]] 1 2) [1]
       (Tensor2 [[3, 4]] 2) 0 =
     inference toy_flow (clamp_min0 [[2, - 1]]) [2] (clamp_min0 [[0]]) [1]
       (Tensor3 [[[5, 6]]] 1 2) [1] (Tensor2 [[3, 4]] 2) 0"
  by (rule clamped_lookup_in_bounds) (simp_all add: toy_flow_def toy_flow_with_def)

end
